theory Spec2Isabelle
  imports Complex_Main
begin

section \<open>Data model\<close>

text \<open>
  Durations (Go's \<open>time.Duration\<close>) and instants are counted in nanoseconds.  The zero
  \<open>time.Time\<close> of a \<open>Result\<close> built without \<open>CachedAt\<close> is \<open>None\<close>.
\<close>

type_synonym duration = int
type_synonym instant = int

text \<open>\<open>MissPolicy\<close> is an \<open>int\<close> in the source; values beyond the eight named
  constants are kept as \<open>MissPolicyOther\<close>.\<close>

datatype MissPolicy =
    MissPolicySyncWriteThenReturn
  | MissPolicyReturnThenAsyncWrite
  | MissPolicyStaleWhileRevalidate
  | MissPolicyFailFast
  | MissPolicyRefreshAhead
  | MissPolicyCooperativeRefresh
  | MissPolicyBestEffort
  | MissPolicyProbabilisticRefresh
  | MissPolicyOther int

text \<open>Errors as values.  \<open>Wrapped p e\<close> is \<open>fmt.Errorf("p: %w", e)\<close>.\<close>

datatype error =
    RedisNil
  | RedisTransport
  | JSONError
  | GeneratorFailed string
  | ErrCacheMissFailFast
  | UnknownMissPolicy MissPolicy
  | Wrapped string error

text \<open>\<open>errors.Is(err, redis.Nil)\<close>: walks the chain of wrapped errors.\<close>

fun is_redis_nil :: "error \<Rightarrow> bool" where
  "is_redis_nil RedisNil = True"
| "is_redis_nil (Wrapped p e) = is_redis_nil e"
| "is_redis_nil e = False"

record 'v Result =
  Value :: 'v
  FromCache :: bool
  CachedAt :: "instant option"

text \<open>A generator is summarised by what it returns when it is invoked.\<close>

type_synonym 'v Generator = "error + 'v"

record handlerConfig =
  prefix :: string
  defaultTTL :: duration
  bgRefreshTimeout :: duration
  refreshCooldown :: duration
  defaultMissPolicy :: MissPolicy
  staleDataTTL :: duration
  defaultRefreshAheadThreshold :: real
  defaultProbabilisticBeta :: real
  cooperativeTimeout :: duration

record callOpts =
  ttl :: duration
  disableHitRefresh :: bool
  overrideMissPolicy :: "MissPolicy option"
  refreshAheadThreshold :: real
  probabilisticRefreshBeta :: real
  staleCheckTimeout :: duration

text \<open>Go's zero value of \<open>callOpts\<close> (\<open>var co callOpts\<close>).\<close>

definition zeroCallOpts :: callOpts where
  "zeroCallOpts = \<lparr> ttl = 0, disableHitRefresh = False, overrideMissPolicy = None,
     refreshAheadThreshold = 0, probabilisticRefreshBeta = 0, staleCheckTimeout = 0 \<rparr>"

type_synonym CallOption = "callOpts \<Rightarrow> callOpts"

definition WithTTL :: "duration \<Rightarrow> CallOption" where
  "WithTTL d = (\<lambda>c. c\<lparr>ttl := d\<rparr>)"

definition WithoutBackgroundRefresh :: CallOption where
  "WithoutBackgroundRefresh = (\<lambda>c. c\<lparr>disableHitRefresh := True\<rparr>)"

definition WithCallMissPolicy :: "MissPolicy \<Rightarrow> CallOption" where
  "WithCallMissPolicy p = (\<lambda>c. c\<lparr>overrideMissPolicy := Some p\<rparr>)"


definition WithProbabilisticBeta :: "real \<Rightarrow> CallOption" where
  "WithProbabilisticBeta b =
     (\<lambda>c. if 0 < b then c\<lparr>probabilisticRefreshBeta := b\<rparr> else c)"

definition WithStaleCheckTimeout :: "duration \<Rightarrow> CallOption" where
  "WithStaleCheckTimeout d = (\<lambda>c. c\<lparr>staleCheckTimeout := d\<rparr>)"

text \<open>\<open>for _, o := range opts { o(&co) }\<close>\<close>

definition applyOpts :: "CallOption list \<Rightarrow> callOpts" where
  "applyOpts opts = foldl (\<lambda>c f. f c) zeroCallOpts opts"

subsection \<open>The keyed mutex\<close>

text \<open>
  \<open>locks\<close> maps a key to its channel of capacity 1; a channel is represented by the
  number of elements in its buffer.  Entries are created by \<open>ch\<close> and never removed, so a
  key names one channel for the whole run.  \<open>ch\<close> runs under \<open>km.mu\<close> and is one
  atomic step.
\<close>

record keyedMutex =
  locks :: "string \<rightharpoonup> nat"

definition newKeyedMutex :: keyedMutex where
  "newKeyedMutex = \<lparr> locks = Map.empty \<rparr>"

definition ch :: "keyedMutex \<Rightarrow> string \<Rightarrow> keyedMutex" where
  "ch km key = (case locks km key of
                  Some n \<Rightarrow> km
                | None \<Rightarrow> km\<lparr>locks := (locks km)(key \<mapsto> 0)\<rparr>)"

definition buffered :: "keyedMutex \<Rightarrow> string \<Rightarrow> nat" where
  "buffered km key = (case locks km key of Some n \<Rightarrow> n | None \<Rightarrow> 0)"

text \<open>\<open>ch <- struct{}{}\<close> on a channel of capacity 1: proceeds when the buffer has room,
  blocks otherwise (\<open>None\<close>: the caller does not get past the send in this state).\<close>

definition Lock :: "keyedMutex \<Rightarrow> string \<Rightarrow> keyedMutex option" where
  "Lock km key =
     (let km1 = ch km key in
      if buffered km1 key < 1
      then Some (km1\<lparr>locks := (locks km1)(key \<mapsto> buffered km1 key + 1)\<rparr>)
      else None)"

text \<open>\<open>select { case ch <- struct{}{}: ... default: ... }\<close>: never blocks.\<close>

definition TryLock :: "keyedMutex \<Rightarrow> string \<Rightarrow> keyedMutex \<times> bool" where
  "TryLock km key =
     (let km1 = ch km key in
      if buffered km1 key < 1
      then (km1\<lparr>locks := (locks km1)(key \<mapsto> buffered km1 key + 1)\<rparr>, True)
      else (km1, False))"

text \<open>The releaser \<open>func() { <-ch }\<close>: a receive, which blocks on an empty buffer.\<close>

definition unlock :: "keyedMutex \<Rightarrow> string \<Rightarrow> keyedMutex option" where
  "unlock km key =
     (if 1 \<le> buffered km key
      then Some (km\<lparr>locks := (locks km)(key \<mapsto> buffered km key - 1)\<rparr>)
      else None)"

subsection \<open>The backend\<close>

text \<open>
  The Redis client is an external collaborator.  It is represented by the content of the
  store (the bytes of each key with the expiration given at the write), by what a
  \<open>TTL\<close> probe reports for a key, and by which operations fail in transport (or by
  the deadline of the context they run under).
\<close>

datatype rdb_op = OpGet | OpSet | OpExists | OpTTL

record redis =
  store :: "string \<rightharpoonup> string \<times> duration"
  remaining :: "string \<Rightarrow> duration"
  fault :: "rdb_op \<Rightarrow> string \<Rightarrow> bool"

text \<open>\<open>json.Marshal\<close> and \<open>json.Unmarshal\<close> at the type \<open>T\<close> of the handler,
  with \<open>None\<close> for an error, and the zero value of \<open>T\<close>.\<close>

record 'v codec =
  marshal :: "'v \<Rightarrow> string option"
  unmarshal :: "string \<Rightarrow> 'v option"
  zero :: 'v

text \<open>Background work started by a \<open>go\<close> statement is recorded, not run: each kind
  of task has its body as a function below.\<close>

datatype 'v task =
    BackgroundMissWrite string duration 'v
  | BackgroundRefresh string duration "'v Generator"
  | StaleRefresh string duration "'v Generator"
  | ScheduleRefreshAhead string duration "'v Generator" real
  | EnableProbabilisticRefresh string duration "'v Generator" real
  | LockWaiter string

datatype 'v event =
    EvLock string
  | EvTryLock string bool
  | EvUnlock string
  | EvRdb rdb_op string
  | EvWrote string string duration
  | EvGen
  | EvGo "'v task"

text \<open>The two cases of the \<open>select\<close> of \<open>missCooperativeRefresh\<close>.\<close>

datatype select_case = CtxDone | LockDone

text \<open>
  What the Go scheduler decides around that \<open>select\<close>: whether the goroutine that
  waits for the lock has run up to \<open>close(done)\<close> when the \<open>select\<close> is evaluated,
  which case is taken when both are ready (Go picks one of the ready cases at random),
  and which event arrives first when none is ready yet.
\<close>

record sched =
  waiterRanFirst :: bool
  pickOfReady :: select_case
  firstToArrive :: select_case

text \<open>
  The handler with all it touches: its configuration, its lock table and refresh ledger,
  the backend, the clock reading (\<open>time.Now()\<close>; one call of the handler is taken at one
  instant), the next draw of \<open>rand.Float64()\<close>, the scheduler's choices, and the trace of
  what has been done so far.
\<close>

record 'v Handler =
  config :: handlerConfig
  localLocks :: keyedMutex
  lastRefreshByKey :: "string \<rightharpoonup> instant"
  rdb :: redis
  json :: "'v codec"
  now :: instant
  rand :: real
  scheduler :: sched
  trace :: "'v event list"

definition emit :: "'v event \<Rightarrow> 'v Handler \<Rightarrow> 'v Handler" where
  "emit e h = h\<lparr>trace := trace h @ [e]\<rparr>"

text \<open>\<open>rdb.Get(ctx, k)\<close>: the bytes, \<open>redis.Nil\<close> for an absent key, or a transport error.
  (\<open>cmd.Bytes()\<close> gives the reply of a command together with the error \<open>cmd.Err()\<close>
  has already shown to be nil, so the branches on its error are not reached.)\<close>

definition rdbGet :: "'v Handler \<Rightarrow> string \<Rightarrow> 'v Handler \<times> (error + string)" where
  "rdbGet h k =
     (emit (EvRdb OpGet k) h,
      if fault (rdb h) OpGet k then Inl RedisTransport
      else case store (rdb h) k of None \<Rightarrow> Inl RedisNil | Some (b, d) \<Rightarrow> Inr b)"

text \<open>\<open>rdb.Set(ctx, k, b, ttl).Err()\<close>\<close>

definition rdbSet :: "'v Handler \<Rightarrow> string \<Rightarrow> string \<Rightarrow> duration \<Rightarrow> 'v Handler \<times> error option" where
  "rdbSet h k b d =
     (if fault (rdb h) OpSet k then (emit (EvRdb OpSet k) h, Some RedisTransport)
      else (emit (EvWrote k b d)
              (emit (EvRdb OpSet k) (h\<lparr>rdb := (rdb h)\<lparr>store := (store (rdb h))(k \<mapsto> (b, d))\<rparr>\<rparr>)),
            None))"

text \<open>\<open>rdb.Exists(ctx, k).Result()\<close>: the number of the given keys that exist.\<close>

definition rdbExists :: "'v Handler \<Rightarrow> string \<Rightarrow> 'v Handler \<times> (error + int)" where
  "rdbExists h k =
     (emit (EvRdb OpExists k) h,
      if fault (rdb h) OpExists k then Inl RedisTransport
      else case store (rdb h) k of None \<Rightarrow> Inr 0 | Some x \<Rightarrow> Inr 1)"

text \<open>\<open>rdb.TTL(ctx, k).Result()\<close>\<close>

definition rdbTTL :: "'v Handler \<Rightarrow> string \<Rightarrow> 'v Handler \<times> (error + duration)" where
  "rdbTTL h k =
     (emit (EvRdb OpTTL k) h,
      if fault (rdb h) OpTTL k then Inl RedisTransport else Inr (remaining (rdb h) k))"

section \<open>Basic operations\<close>

definition fullKey :: "'v Handler \<Rightarrow> string \<Rightarrow> string" where
  "fullKey h key = (if prefix (config h) = [] then key else prefix (config h) @ '':'' @ key)"

subsection \<open>Construction\<close>

type_synonym Option = "handlerConfig \<Rightarrow> handlerConfig"

definition WithPrefix :: "string \<Rightarrow> Option" where
  "WithPrefix p = (\<lambda>c. c\<lparr>prefix := p\<rparr>)"

definition WithDefaultTTL :: "duration \<Rightarrow> Option" where
  "WithDefaultTTL d = (\<lambda>c. c\<lparr>defaultTTL := d\<rparr>)"

definition WithBackgroundRefreshTimeout :: "duration \<Rightarrow> Option" where
  "WithBackgroundRefreshTimeout d = (\<lambda>c. c\<lparr>bgRefreshTimeout := d\<rparr>)"

definition WithRefreshCooldown :: "duration \<Rightarrow> Option" where
  "WithRefreshCooldown d = (\<lambda>c. c\<lparr>refreshCooldown := d\<rparr>)"

definition WithMissPolicy :: "MissPolicy \<Rightarrow> Option" where
  "WithMissPolicy p = (\<lambda>c. c\<lparr>defaultMissPolicy := p\<rparr>)"

definition WithStaleDataTTL :: "duration \<Rightarrow> Option" where
  "WithStaleDataTTL d = (\<lambda>c. c\<lparr>staleDataTTL := d\<rparr>)"

text \<open>The source gives the handler-level options for the threshold and for beta the same
  names as the call-level ones; here they carry the suffix \<open>_Option\<close>.\<close>

definition WithRefreshAheadThreshold_Option :: "real \<Rightarrow> Option" where
  "WithRefreshAheadThreshold_Option x =
     (\<lambda>c. if 0 \<le> x \<and> x \<le> 1 then c\<lparr>defaultRefreshAheadThreshold := x\<rparr> else c)"

definition WithProbabilisticBeta_Option :: "real \<Rightarrow> Option" where
  "WithProbabilisticBeta_Option b =
     (\<lambda>c. if 0 < b then c\<lparr>defaultProbabilisticBeta := b\<rparr> else c)"

definition WithCooperativeTimeout :: "duration \<Rightarrow> Option" where
  "WithCooperativeTimeout d = (\<lambda>c. c\<lparr>cooperativeTimeout := d\<rparr>)"

definition second :: duration where
  "second = 1000000000"

definition defaultConfig :: handlerConfig where
  "defaultConfig =
     \<lparr> prefix = [],
       defaultTTL = 5 * 60 * second,
       bgRefreshTimeout = 5 * second,
       refreshCooldown = 0,
       defaultMissPolicy = MissPolicySyncWriteThenReturn,
       staleDataTTL = 24 * 3600 * second,
       defaultRefreshAheadThreshold = 2 / 10,
       defaultProbabilisticBeta = 1,
       cooperativeTimeout = 10 * second \<rparr>"

text \<open>\<open>New(rdb, opts...)\<close>, placed in its surroundings: the codec of \<open>T\<close>, the clock
  reading, the next random draw and the scheduler's choices.  The trace starts empty.\<close>

definition New ::
  "redis \<Rightarrow> 'v codec \<Rightarrow> instant \<Rightarrow> real \<Rightarrow> sched \<Rightarrow> Option list \<Rightarrow> 'v Handler" where
  "New r cd t x sc opts =
     \<lparr> config = foldl (\<lambda>c f. f c) defaultConfig opts,
       localLocks = newKeyedMutex,
       lastRefreshByKey = Map.empty,
       rdb = r,
       json = cd,
       now = t,
       rand = x,
       scheduler = sc,
       trace = [] \<rparr>"

subsection \<open>Cooldown tracking\<close>

definition shouldRefreshNow :: "'v Handler \<Rightarrow> string \<Rightarrow> bool" where
  "shouldRefreshNow h fk =
     (if refreshCooldown (config h) \<le> 0 then True
      else case lastRefreshByKey h fk of
             None \<Rightarrow> True
           | Some t0 \<Rightarrow> now h - t0 \<ge> refreshCooldown (config h))"

definition setLastRefreshNow :: "'v Handler \<Rightarrow> string \<Rightarrow> 'v Handler" where
  "setLastRefreshNow h fk =
     (if refreshCooldown (config h) \<le> 0 then h
      else h\<lparr>lastRefreshByKey := (lastRefreshByKey h)(fk \<mapsto> now h)\<rparr>)"

subsection \<open>Set and Get\<close>

definition zeroResult :: "'v Handler \<Rightarrow> 'v Result" where
  "zeroResult h = \<lparr> Value = zero (json h), FromCache = False, CachedAt = None \<rparr>"

definition Set :: "'v Handler \<Rightarrow> string \<Rightarrow> 'v \<Rightarrow> CallOption list \<Rightarrow> 'v Handler \<times> error option" where
  "Set h key v opts =
     (let co = applyOpts opts;
          d = (if ttl co \<le> 0 then defaultTTL (config h) else ttl co);
          k = fullKey h key
      in case marshal (json h) v of
           None \<Rightarrow> (h, Some (Wrapped ''marshal'' JSONError))
         | Some b \<Rightarrow>
             (case rdbSet h k b d of
                (h1, Some e) \<Rightarrow> (h1, Some (Wrapped ''redis set'' e))
              | (h1, None) \<Rightarrow> (setLastRefreshNow h1 k, None)))"

definition Get :: "'v Handler \<Rightarrow> string \<Rightarrow> 'v Handler \<times> 'v Result \<times> error option" where
  "Get h key =
     (let k = fullKey h key in
      case rdbGet h k of
        (h1, Inl e) \<Rightarrow>
          (if is_redis_nil e then (h1, zeroResult h1, Some RedisNil)
           else (h1, zeroResult h1, Some (Wrapped ''redis get'' e)))
      | (h1, Inr raw) \<Rightarrow>
          (case unmarshal (json h1) raw of
             None \<Rightarrow> (h1, zeroResult h1, Some (Wrapped ''unmarshal'' JSONError))
           | Some v \<Rightarrow> (h1, \<lparr> Value = v, FromCache = True, CachedAt = Some (now h1) \<rparr>, None)))"

section \<open>Miss handlers and background tasks\<close>

text \<open>\<open>defer unlock()\<close>: runs when the body has produced its result.\<close>

definition deferUnlock :: "string \<Rightarrow> 'v Handler \<Rightarrow> 'v Handler option" where
  "deferUnlock fk h =
     (case unlock (localLocks h) fk of
        None \<Rightarrow> None
      | Some km \<Rightarrow> Some (emit (EvUnlock fk) (h\<lparr>localLocks := km\<rparr>)))"

definition missSyncWriteThenReturn ::
  "'v Handler \<Rightarrow> string \<Rightarrow> duration \<Rightarrow> 'v Generator \<Rightarrow> ('v Handler \<times> 'v Result \<times> error option) option" where
  "missSyncWriteThenReturn h key d gen =
     (let fk = fullKey h key in
      case Lock (localLocks h) fk of
        None \<Rightarrow> None
      | Some km \<Rightarrow>
          (let h1 = emit (EvLock fk) (h\<lparr>localLocks := km\<rparr>);
               (h9, res, err) =
                 (case Get h1 key of
                    (h2, res, None) \<Rightarrow> (h2, res, None)
                  | (h2, res, Some e) \<Rightarrow>
                      if \<not> is_redis_nil e then (h2, zeroResult h2, Some e)
                      else (case gen of
                              Inl ge \<Rightarrow> (emit EvGen h2, zeroResult h2, Some (Wrapped ''generator'' ge))
                            | Inr v \<Rightarrow>
                                (case Set (emit EvGen h2) key v [WithTTL d] of
                                   (h3, Some se) \<Rightarrow> (h3, zeroResult h3, Some se)
                                 | (h3, None) \<Rightarrow>
                                     (h3, \<lparr> Value = v, FromCache = False, CachedAt = Some (now h3) \<rparr>, None))))
           in case deferUnlock fk h9 of
                None \<Rightarrow> None
              | Some h10 \<Rightarrow> Some (h10, res, err)))"

definition missReturnThenAsyncWrite ::
  "'v Handler \<Rightarrow> string \<Rightarrow> duration \<Rightarrow> 'v Generator \<Rightarrow> 'v Handler \<times> 'v Result \<times> error option" where
  "missReturnThenAsyncWrite h key d gen =
     (case gen of
        Inl ge \<Rightarrow> (emit EvGen h, zeroResult h, Some (Wrapped ''generator'' ge))
      | Inr v \<Rightarrow>
          (emit (EvGo (BackgroundMissWrite key d v)) (emit EvGen h),
           \<lparr> Value = v, FromCache = False, CachedAt = Some (now h) \<rparr>, None))"

definition spawnBackgroundMissWrite :: "'v Handler \<Rightarrow> string \<Rightarrow> duration \<Rightarrow> 'v \<Rightarrow> 'v Handler option" where
  "spawnBackgroundMissWrite h key d v =
     (let fk = fullKey h key in
      case TryLock (localLocks h) fk of
        (km, False) \<Rightarrow> Some (emit (EvTryLock fk False) (h\<lparr>localLocks := km\<rparr>))
      | (km, True) \<Rightarrow>
          (let h1 = emit (EvTryLock fk True) (h\<lparr>localLocks := km\<rparr>) in
           deferUnlock fk
             (case rdbExists h1 fk of
                (h2, Inl e) \<Rightarrow> h2
              | (h2, Inr n) \<Rightarrow> if n > 0 then h2 else fst (Set h2 key v [WithTTL d]))))"

definition spawnBackgroundRefresh ::
  "'v Handler \<Rightarrow> string \<Rightarrow> duration \<Rightarrow> 'v Generator \<Rightarrow> 'v Handler option" where
  "spawnBackgroundRefresh h key d gen =
     (let fk = fullKey h key in
      case TryLock (localLocks h) fk of
        (km, False) \<Rightarrow> Some (emit (EvTryLock fk False) (h\<lparr>localLocks := km\<rparr>))
      | (km, True) \<Rightarrow>
          (let h1 = emit (EvTryLock fk True) (h\<lparr>localLocks := km\<rparr>) in
           deferUnlock fk
             (if \<not> shouldRefreshNow h1 fk then h1
              else case gen of
                     Inl ge \<Rightarrow> emit EvGen h1
                   | Inr v \<Rightarrow> fst (Set (emit EvGen h1) key v [WithTTL d]))))"

text \<open>\<open>getFromKey\<close> and \<open>setToKey\<close> work on a full key and return the errors unwrapped.\<close>

definition getFromKey :: "'v Handler \<Rightarrow> string \<Rightarrow> 'v Handler \<times> (error + 'v)" where
  "getFromKey h fk =
     (case rdbGet h fk of
        (h1, Inl e) \<Rightarrow> (h1, Inl e)
      | (h1, Inr raw) \<Rightarrow>
          (case unmarshal (json h1) raw of
             None \<Rightarrow> (h1, Inl JSONError)
           | Some v \<Rightarrow> (h1, Inr v)))"

definition setToKey :: "'v Handler \<Rightarrow> string \<Rightarrow> 'v \<Rightarrow> duration \<Rightarrow> 'v Handler \<times> error option" where
  "setToKey h fk v d =
     (case marshal (json h) v of
        None \<Rightarrow> (h, Some JSONError)
      | Some b \<Rightarrow> rdbSet h fk b d)"

definition spawnStaleRefresh ::
  "'v Handler \<Rightarrow> string \<Rightarrow> duration \<Rightarrow> 'v Generator \<Rightarrow> 'v Handler option" where
  "spawnStaleRefresh h key d gen =
     (let fk = fullKey h key;
          staleKey = fullKey h (key @ '':stale'')
      in case TryLock (localLocks h) fk of
           (km, False) \<Rightarrow> Some (emit (EvTryLock fk False) (h\<lparr>localLocks := km\<rparr>))
         | (km, True) \<Rightarrow>
             (let h1 = emit (EvTryLock fk True) (h\<lparr>localLocks := km\<rparr>) in
              deferUnlock fk
                (case gen of
                   Inl ge \<Rightarrow> emit EvGen h1
                 | Inr v \<Rightarrow>
                     (let h2 = fst (Set (emit EvGen h1) key v [WithTTL d])
                      in fst (setToKey h2 staleKey v (staleDataTTL (config h2)))))))"

text \<open>
  The stale read of \<open>missStaleWhileRevalidate\<close> runs under a context bounded by
  \<open>staleCheckTimeout\<close> (one second when that is not positive); a read cut by the
  deadline is a failed read, and every failed read falls back to the synchronous path.
\<close>

definition missStaleWhileRevalidate ::
  "'v Handler \<Rightarrow> string \<Rightarrow> duration \<Rightarrow> 'v Generator \<Rightarrow> callOpts \<Rightarrow>
     ('v Handler \<times> 'v Result \<times> error option) option" where
  "missStaleWhileRevalidate h key d gen co =
     (let staleKey = fullKey h (key @ '':stale'') in
      case getFromKey h staleKey of
        (h1, Inr staleResult) \<Rightarrow>
          Some (emit (EvGo (StaleRefresh key d gen)) h1,
                \<lparr> Value = staleResult, FromCache = True, CachedAt = Some (now h1) \<rparr>, None)
      | (h1, Inl e) \<Rightarrow> missSyncWriteThenReturn h1 key d gen)"

definition missFailFast :: "'v Handler \<Rightarrow> string \<Rightarrow> 'v Handler \<times> 'v Result \<times> error option" where
  "missFailFast h key = (h, zeroResult h, Some ErrCacheMissFailFast)"

definition missRefreshAhead ::
  "'v Handler \<Rightarrow> string \<Rightarrow> duration \<Rightarrow> 'v Generator \<Rightarrow> callOpts \<Rightarrow>
     ('v Handler \<times> 'v Result \<times> error option) option" where
  "missRefreshAhead h key d gen co =
     (case missSyncWriteThenReturn h key d gen of
        None \<Rightarrow> None
      | Some (h1, res, Some e) \<Rightarrow> Some (h1, res, Some e)
      | Some (h1, res, None) \<Rightarrow>
          (let threshold = (if refreshAheadThreshold co \<le> 0
                            then defaultRefreshAheadThreshold (config h1)
                            else refreshAheadThreshold co)
           in Some (emit (EvGo (ScheduleRefreshAhead key d gen threshold)) h1, res, None)))"

text \<open>
  The \<open>select\<close> of \<open>missCooperativeRefresh\<close>.  \<open>lockCtx\<close> is done from its creation
  when the cooperative timeout is not positive.  \<open>done\<close> is closed once the waiting
  goroutine has sent on the key's channel, which it can do when the buffer has room.
\<close>

definition coopSelect :: "'v Handler \<Rightarrow> string \<Rightarrow> select_case" where
  "coopSelect h fk =
     (let ctxReady = (cooperativeTimeout (config h) \<le> 0);
          doneReady = (waiterRanFirst (scheduler h) \<and> Lock (localLocks h) fk \<noteq> None)
      in if ctxReady \<and> doneReady then pickOfReady (scheduler h)
         else if ctxReady then CtxDone
         else if doneReady then LockDone
         else firstToArrive (scheduler h))"

definition missCooperativeRefresh ::
  "'v Handler \<Rightarrow> string \<Rightarrow> duration \<Rightarrow> 'v Generator \<Rightarrow>
     ('v Handler \<times> 'v Result \<times> error option) option" where
  "missCooperativeRefresh h key d gen =
     (let fk = fullKey h key;
          h1 = emit (EvGo (LockWaiter fk)) h
      in case coopSelect h1 fk of
           CtxDone \<Rightarrow>
             (case gen of
                Inl ge \<Rightarrow> Some (emit EvGen h1, zeroResult h1, Some (Wrapped ''generator'' ge))
              | Inr v \<Rightarrow>
                  Some (emit EvGen h1,
                        \<lparr> Value = v, FromCache = False, CachedAt = Some (now h1) \<rparr>, None))
         | LockDone \<Rightarrow> missSyncWriteThenReturn h1 key d gen)"

definition missBestEffort ::
  "'v Handler \<Rightarrow> string \<Rightarrow> duration \<Rightarrow> 'v Generator \<Rightarrow> 'v Handler \<times> 'v Result \<times> error option" where
  "missBestEffort h key d gen =
     (case gen of
        Inl ge \<Rightarrow>
          (emit EvGen h, \<lparr> Value = zero (json h), FromCache = False, CachedAt = Some (now h) \<rparr>, None)
      | Inr v \<Rightarrow>
          (case Set (emit EvGen h) key v [WithTTL d] of
             (h1, Some setErr) \<Rightarrow>
               (h1, \<lparr> Value = v, FromCache = False, CachedAt = Some (now h1) \<rparr>, None)
           | (h1, None) \<Rightarrow>
               (h1, \<lparr> Value = v, FromCache = False, CachedAt = Some (now h1) \<rparr>, None)))"

definition missProbabilisticRefresh ::
  "'v Handler \<Rightarrow> string \<Rightarrow> duration \<Rightarrow> 'v Generator \<Rightarrow> callOpts \<Rightarrow>
     ('v Handler \<times> 'v Result \<times> error option) option" where
  "missProbabilisticRefresh h key d gen co =
     (case missSyncWriteThenReturn h key d gen of
        None \<Rightarrow> None
      | Some (h1, res, Some e) \<Rightarrow> Some (h1, res, Some e)
      | Some (h1, res, None) \<Rightarrow>
          (let beta = (if probabilisticRefreshBeta co \<le> 0
                       then defaultProbabilisticBeta (config h1)
                       else probabilisticRefreshBeta co)
           in Some (emit (EvGo (EnableProbabilisticRefresh key d gen beta)) h1, res, None)))"

text \<open>\<open>scheduleRefreshAhead\<close> first sleeps for \<open>ttl * (1 - threshold)\<close>; the handler
  given here is the one it finds when it wakes up.\<close>

definition scheduleRefreshAhead ::
  "'v Handler \<Rightarrow> string \<Rightarrow> duration \<Rightarrow> 'v Generator \<Rightarrow> real \<Rightarrow> 'v Handler option" where
  "scheduleRefreshAhead h key d gen threshold =
     (let fk = fullKey h key in
      case rdbExists h fk of
        (h1, Inl e) \<Rightarrow> Some h1
      | (h1, Inr n) \<Rightarrow> if n = 0 then Some h1 else spawnBackgroundRefresh h1 key d gen)"

definition enableProbabilisticRefresh ::
  "'v Handler \<Rightarrow> string \<Rightarrow> duration \<Rightarrow> 'v Generator \<Rightarrow> real \<Rightarrow> 'v Handler" where
  "enableProbabilisticRefresh h key d gen beta =
     h\<lparr>lastRefreshByKey := (lastRefreshByKey h)(fullKey h key @ ''@created'' \<mapsto> now h)\<rparr>"

section \<open>Hit-path refresh\<close>

text \<open>
  Go's \<open>float64\<close> is the binary64 format of IEEE 754: a value is a real number, an
  infinity or NaN, and a conversion, a quotient or a product is the exact result rounded
  to the nearest binary64 number, to the one with an even significand at a tie.
  Comparisons with NaN are false.  The sign of a zero is not kept: it would show only in
  a division by that zero, and the divisors below are conversions of integers, whose zero
  is positive.
\<close>

datatype f64 = Fin real | PosInf | NegInf | NaN

text \<open>The number of binary digits of a natural number, and the binary exponent of a
  positive real \<open>x\<close>: the \<open>e\<close> with \<open>2 powi e \<le> x < 2 powi (e + 1)\<close>.\<close>

fun bitlen :: "nat \<Rightarrow> nat" where
  "bitlen 0 = 0"
| "bitlen (Suc n) = Suc (bitlen (Suc n div 2))"

definition exponent :: "real \<Rightarrow> int" where
  "exponent x =
     (if 1 \<le> x then int (bitlen (nat \<lfloor>x\<rfloor>)) - 1
      else - int (bitlen (nat \<lceil>1 / x\<rceil> - 1)))"

text \<open>The integer nearest to a real that is not negative, the even one at a tie.\<close>

definition roundHalfEven :: "real \<Rightarrow> int" where
  "roundHalfEven q =
     (let f = \<lfloor>q\<rfloor>; r = q - of_int f
      in if r < 1 / 2 then f else if 1 / 2 < r then f + 1 else if even f then f else f + 1)"

text \<open>
  The binary64 number nearest to a real.  A binary64 number has a significand of 53 binary
  digits and an exponent from -1022 to 1023, so around \<open>x\<close>, whose exponent is \<open>e\<close>,
  the binary64 numbers are the multiples of \<open>2 powi (e - 52)\<close>; below \<open>2 powi - 1022\<close>
  (the subnormal numbers) they are the multiples of \<open>2 powi - 1074\<close>.  A result that
  reaches \<open>2 ^ 1024\<close> is infinite.
\<close>

definition round64 :: "real \<Rightarrow> f64" where
  "round64 x =
     (if x = 0 then Fin 0
      else let e = max (exponent \<bar>x\<bar>) (- 1022);
               ulp = 2 powi (e - 52);
               y = of_int (roundHalfEven (\<bar>x\<bar> / ulp)) * ulp
           in if 2 ^ 1024 \<le> y then (if 0 < x then PosInf else NegInf)
              else Fin (sgn x * y))"

text \<open>The conversion \<open>float64(i)\<close> of an integer, the quotient \<open>a / b\<close> of two
  \<open>float64\<close> and the product \<open>a * b\<close> of a \<open>float64\<close> by a finite one.\<close>

definition float64 :: "int \<Rightarrow> f64" where
  "float64 i = round64 (real_of_int i)"

fun f64_quo :: "f64 \<Rightarrow> f64 \<Rightarrow> f64" where
  "f64_quo (Fin x) (Fin y) =
     (if y \<noteq> 0 then round64 (x / y)
      else if 0 < x then PosInf else if x < 0 then NegInf else NaN)"
| "f64_quo (Fin x) PosInf = Fin 0"
| "f64_quo (Fin x) NegInf = Fin 0"
| "f64_quo PosInf (Fin y) = (if 0 \<le> y then PosInf else NegInf)"
| "f64_quo NegInf (Fin y) = (if 0 \<le> y then NegInf else PosInf)"
| "f64_quo a b = NaN"

fun f64_mul :: "f64 \<Rightarrow> real \<Rightarrow> f64" where
  "f64_mul (Fin x) b = round64 (x * b)"
| "f64_mul PosInf b = (if 0 < b then PosInf else if b < 0 then NegInf else NaN)"
| "f64_mul NegInf b = (if 0 < b then NegInf else if b < 0 then PosInf else NaN)"
| "f64_mul NaN b = NaN"

fun f64_le :: "f64 \<Rightarrow> real \<Rightarrow> bool" where
  "f64_le (Fin x) t = (x \<le> t)"
| "f64_le PosInf t = False"
| "f64_le NegInf t = True"
| "f64_le NaN t = False"

fun f64_lt :: "real \<Rightarrow> f64 \<Rightarrow> bool" where
  "f64_lt r (Fin x) = (r < x)"
| "f64_lt r PosInf = True"
| "f64_lt r NegInf = False"
| "f64_lt r NaN = False"

text \<open>\<open>rand.Float64()\<close> is the draw \<open>rand h\<close> of the handler's surroundings, a number
  in \<open>[0, 1)\<close>; beta is a finite number.\<close>

definition shouldProbabilisticRefresh :: "'v Handler \<Rightarrow> string \<Rightarrow> duration \<Rightarrow> real \<Rightarrow> bool" where
  "shouldProbabilisticRefresh h key d beta =
     (case lastRefreshByKey h (fullKey h key @ ''@created'') of
        None \<Rightarrow> False
      | Some created \<Rightarrow>
          (let age = now h - created;
               ageRatio = f64_quo (float64 age) (float64 d);
               probability = f64_mul ageRatio beta
           in f64_lt (rand h) probability))"

text \<open>
  In \<open>shouldRefreshAhead\<close> the quotient of the remaining TTL (positive at that point)
  by the original TTL is compared with the threshold.  What is proved below about it rests
  on the sign of that quotient, and on two instances that are far from the threshold; the
  quotient is taken here as the exact one, infinite or not a number for a divisor 0.
  Rounding changes none of these answers: the sign of the quotient of two 64-bit durations
  stays as it is (\<open>quotient_sign_rounding\<close> below), and so do the two instances
  (\<open>quotient_instances_rounding\<close>).
\<close>

definition f64_div :: "real \<Rightarrow> real \<Rightarrow> f64" where
  "f64_div x y =
     (if y \<noteq> 0 then Fin (x / y)
      else if 0 < x then PosInf else if x < 0 then NegInf else NaN)"

definition shouldRefreshAhead ::
  "'v Handler \<Rightarrow> string \<Rightarrow> duration \<Rightarrow> real \<Rightarrow> 'v Handler \<times> bool" where
  "shouldRefreshAhead h fk originalTTL threshold =
     (case rdbTTL h fk of
        (h1, Inl e) \<Rightarrow> (h1, False)
      | (h1, Inr rem) \<Rightarrow>
          if rem \<le> 0 then (h1, False)
          else (h1, f64_le (f64_div (real_of_int rem) (real_of_int originalTTL)) threshold))"

definition handleHitRefresh ::
  "'v Handler \<Rightarrow> string \<Rightarrow> duration \<Rightarrow> 'v Generator \<Rightarrow> MissPolicy \<Rightarrow> callOpts \<Rightarrow> 'v Handler" where
  "handleHitRefresh h key d gen missPolicy co =
     (let fk = fullKey h key in
      case missPolicy of
        MissPolicyRefreshAhead \<Rightarrow>
          (let threshold = (if refreshAheadThreshold co \<le> 0
                            then defaultRefreshAheadThreshold (config h)
                            else refreshAheadThreshold co)
           in case shouldRefreshAhead h fk d threshold of
                (h1, True) \<Rightarrow> emit (EvGo (BackgroundRefresh key d gen)) h1
              | (h1, False) \<Rightarrow> h1)
      | MissPolicyProbabilisticRefresh \<Rightarrow>
          (let beta = (if probabilisticRefreshBeta co \<le> 0
                       then defaultProbabilisticBeta (config h)
                       else probabilisticRefreshBeta co)
           in if shouldProbabilisticRefresh h key d beta
              then emit (EvGo (BackgroundRefresh key d gen)) h
              else h)
      | _ \<Rightarrow>
          (if shouldRefreshNow h fk
           then emit (EvGo (BackgroundRefresh key d gen)) h
           else h))"

section \<open>The main entry\<close>

definition GetOrRefresh ::
  "'v Handler \<Rightarrow> string \<Rightarrow> 'v Generator \<Rightarrow> CallOption list \<Rightarrow>
     ('v Handler \<times> 'v Result \<times> error option) option" where
  "GetOrRefresh h key gen opts =
     (let co = applyOpts opts;
          d = (if ttl co \<le> 0 then defaultTTL (config h) else ttl co);
          missPolicy = (case overrideMissPolicy co of
                          None \<Rightarrow> defaultMissPolicy (config h)
                        | Some p \<Rightarrow> p)
      in case Get h key of
           (h1, res, None) \<Rightarrow>
             Some (if \<not> disableHitRefresh co
                   then handleHitRefresh h1 key d gen missPolicy co
                   else h1, res, None)
         | (h1, res, Some e) \<Rightarrow>
             if \<not> is_redis_nil e then Some (h1, zeroResult h1, Some e)
             else (case missPolicy of
                     MissPolicySyncWriteThenReturn \<Rightarrow> missSyncWriteThenReturn h1 key d gen
                   | MissPolicyReturnThenAsyncWrite \<Rightarrow> Some (missReturnThenAsyncWrite h1 key d gen)
                   | MissPolicyStaleWhileRevalidate \<Rightarrow> missStaleWhileRevalidate h1 key d gen co
                   | MissPolicyFailFast \<Rightarrow> Some (missFailFast h1 key)
                   | MissPolicyRefreshAhead \<Rightarrow> missRefreshAhead h1 key d gen co
                   | MissPolicyCooperativeRefresh \<Rightarrow> missCooperativeRefresh h1 key d gen
                   | MissPolicyBestEffort \<Rightarrow> Some (missBestEffort h1 key d gen)
                   | MissPolicyProbabilisticRefresh \<Rightarrow> missProbabilisticRefresh h1 key d gen co
                   | MissPolicyOther n \<Rightarrow>
                       Some (h1, zeroResult h1, Some (UnknownMissPolicy missPolicy))))"

section \<open>Tasks sharing the keyed mutex\<close>

text \<open>
  Tasks of one process interleave at the steps of the keyed mutex.  A task takes a key
  with \<open>Lock\<close> or \<open>TryLock\<close> and later invokes the releaser it was given, once, as
  every user in the handler does (\<open>defer unlock()\<close>).  \<open>holding\<close> lists, for each
  releaser not yet invoked, the task that owns it and its key: these are the tasks inside
  the critical section of that key.  A step that blocks is \<open>None\<close>.  \<open>Lock\<close> and
  \<open>TryLock\<close> look the channel up and send on it; \<open>ActCh\<close> is the lookup alone, for
  a task that stands between the two.
\<close>

datatype km_action =
    ActCh nat string
  | ActLock nat string
  | ActTryLock nat string
  | ActUnlock nat string

record km_sys =
  mutex :: keyedMutex
  holding :: "(nat \<times> string) list"

definition km_init :: km_sys where
  "km_init = \<lparr> mutex = newKeyedMutex, holding = [] \<rparr>"

fun km_step :: "km_action \<Rightarrow> km_sys \<Rightarrow> km_sys option" where
  "km_step (ActCh t k) s = Some (s\<lparr>mutex := ch (mutex s) k\<rparr>)"
| "km_step (ActLock t k) s =
     (case Lock (mutex s) k of
        None \<Rightarrow> None
      | Some km \<Rightarrow> Some \<lparr> mutex = km, holding = (t, k) # holding s \<rparr>)"
| "km_step (ActTryLock t k) s =
     (case TryLock (mutex s) k of
        (km, True) \<Rightarrow> Some \<lparr> mutex = km, holding = (t, k) # holding s \<rparr>
      | (km, False) \<Rightarrow> Some \<lparr> mutex = km, holding = holding s \<rparr>)"
| "km_step (ActUnlock t k) s =
     (if (t, k) \<in> set (holding s)
      then (case unlock (mutex s) k of
              None \<Rightarrow> None
            | Some km \<Rightarrow> Some \<lparr> mutex = km, holding = remove1 (t, k) (holding s) \<rparr>)
      else None)"

fun km_run :: "km_action list \<Rightarrow> km_sys \<Rightarrow> km_sys option" where
  "km_run [] s = Some s"
| "km_run (a # as) s = (case km_step a s of None \<Rightarrow> None | Some s1 \<Rightarrow> km_run as s1)"

definition holders :: "km_sys \<Rightarrow> string \<Rightarrow> nat list" where
  "holders s k = map fst (filter (\<lambda>p. snd p = k) (holding s))"

section \<open>Reading the trace\<close>

fun written :: "'v event list \<Rightarrow> (string \<times> string \<times> duration) list" where
  "written [] = []"
| "written (EvWrote k b d # es) = (k, b, d) # written es"
| "written (e # es) = written es"

fun genCalls :: "'v event list \<Rightarrow> nat" where
  "genCalls [] = 0"
| "genCalls (EvGen # es) = Suc (genCalls es)"
| "genCalls (e # es) = genCalls es"

fun spawned :: "'v event list \<Rightarrow> 'v task list" where
  "spawned [] = []"
| "spawned (EvGo t # es) = t # spawned es"
| "spawned (e # es) = spawned es"

section \<open>Describing effects\<close>

text \<open>The TTL a write ends up with: the one given when it is positive, the default otherwise
  (\<open>Set\<close> and \<open>GetOrRefresh\<close> resolve it the same way).\<close>

definition effTTL :: "handlerConfig \<Rightarrow> duration \<Rightarrow> duration" where
  "effTTL c d = (if d \<le> 0 then defaultTTL c else d)"

text \<open>The handler after a successful backend write of bytes \<open>b\<close> at full key \<open>k\<close>.\<close>

definition wrote :: "'v Handler \<Rightarrow> string \<Rightarrow> string \<Rightarrow> duration \<Rightarrow> 'v Handler" where
  "wrote h k b d =
     h\<lparr> rdb := (rdb h)\<lparr>store := (store (rdb h))(k \<mapsto> (b, d))\<rparr>,
        trace := trace h @ [EvRdb OpSet k, EvWrote k b d] \<rparr>"

text \<open>The successful backend writes made between two states of a handler.\<close>

definition newWrites :: "'v Handler \<Rightarrow> 'v Handler \<Rightarrow> (string \<times> string \<times> duration) list" where
  "newWrites h h' = drop (length (written (trace h))) (written (trace h'))"

definition noWrite :: "'v Handler \<Rightarrow> 'v Handler \<Rightarrow> bool" where
  "noWrite h h' = (newWrites h h' = [] \<and> lastRefreshByKey h' = lastRefreshByKey h)"

text \<open>One write by the pathway of \<open>Set\<close>: the value encoded, written at the full key
  with a TTL, and the ledger as \<open>setLastRefreshNow\<close> leaves it for that key.\<close>

definition throughSet :: "'v Handler \<Rightarrow> 'v Handler \<Rightarrow> string \<Rightarrow> 'v \<Rightarrow> duration \<Rightarrow> bool" where
  "throughSet h h' fk v d =
     (case marshal (json h) v of
        None \<Rightarrow> False
      | Some b \<Rightarrow>
          newWrites h h' = [(fk, b, d)] \<and>
          lastRefreshByKey h' = lastRefreshByKey (setLastRefreshNow h fk))"

text \<open>The ledger entry of every key written between two states is the one
  \<open>setLastRefreshNow\<close> gives it.\<close>

definition ledgerFollowsWrites :: "'v Handler \<Rightarrow> 'v Handler \<Rightarrow> bool" where
  "ledgerFollowsWrites h h' =
     list_all (\<lambda>w. lastRefreshByKey h' (fst w) = lastRefreshByKey (setLastRefreshNow h (fst w)) (fst w))
       (newWrites h h')"

section \<open>Concrete surroundings\<close>

text \<open>An empty backend without faults (a \<open>TTL\<close> probe of an absent key reports -2), the
  JSON codec of \<open>bool\<close>, and two schedulers: one that runs the waiting goroutine of
  \<open>missCooperativeRefresh\<close> after the \<open>select\<close>, one that runs it before and lets the
  \<open>select\<close> pick \<open>done\<close> among ready cases.\<close>

definition emptyRedis :: redis where
  "emptyRedis = \<lparr> store = Map.empty, remaining = (\<lambda>k. - 2), fault = (\<lambda>op k. False) \<rparr>"

definition boolJSON :: "bool codec" where
  "boolJSON =
     \<lparr> marshal = (\<lambda>v. Some (if v then ''true'' else ''false'')),
       unmarshal = (\<lambda>b. if b = ''true'' then Some True
                          else if b = ''false'' then Some False else None),
       zero = False \<rparr>"

definition lateWaiter :: sched where
  "lateWaiter = \<lparr> waiterRanFirst = False, pickOfReady = CtxDone, firstToArrive = LockDone \<rparr>"

definition earlyWaiter :: sched where
  "earlyWaiter = \<lparr> waiterRanFirst = True, pickOfReady = LockDone, firstToArrive = LockDone \<rparr>"

text \<open>Handlers as \<open>New\<close> makes them, with the clock at 100: with the defaults; over a
  backend that holds \<open>k\<close>; over a backend that refuses every write; with a refresh
  cooldown of five seconds; with prefix \<open>p\<close> and StaleWhileRevalidate as the policy.\<close>

definition h_new :: "bool Handler" where
  "h_new = New emptyRedis boolJSON 100 0 lateWaiter []"



definition h_cool :: "bool Handler" where
  "h_cool = New emptyRedis boolJSON 100 0 lateWaiter [WithRefreshCooldown (5 * second)]"

definition h_swr :: "bool Handler" where
  "h_swr = New emptyRedis boolJSON 100 0 lateWaiter
             [WithPrefix ''p'', WithMissPolicy MissPolicyStaleWhileRevalidate]"




text \<open>Handlers with a cooperative timeout of 0, under each scheduler.\<close>

definition h_coop0 :: "bool Handler" where
  "h_coop0 = New emptyRedis boolJSON 100 0 lateWaiter [WithCooperativeTimeout 0]"

definition h_race :: "bool Handler" where
  "h_race = New emptyRedis boolJSON 100 0 earlyWaiter [WithCooperativeTimeout 0]"

text \<open>Handlers on which \<open>enableProbabilisticRefresh\<close> has stamped \<open>k\<close>: at clock 40,
  looked at again at clock 100 with the draw one half; and at clock 100, looked at the
  same instant with the draw 0.\<close>

definition h_aged :: "bool Handler" where
  "h_aged = (enableProbabilisticRefresh (New emptyRedis boolJSON 40 (1 / 2) lateWaiter [])
               ''k'' 60 (Inr True) 1) \<lparr>now := 100\<rparr>"

definition h_fresh :: "bool Handler" where
  "h_fresh = enableProbabilisticRefresh (New emptyRedis boolJSON 100 0 lateWaiter [])
               ''k'' 60 (Inr True) 1"



text \<open>Handlers stamped likewise: at clock 0 with the draw \<open>1 - 1 / 2 ^ 53\<close>, the
  largest below 1, looked at one second later; and, over a backend that holds \<open>k\<close> and
  with a default TTL of minus sixty and ProbabilisticRefresh as the policy, at clock 40
  with the draw one half, looked at at clock 100.\<close>

definition h_edge :: "bool Handler" where
  "h_edge = (enableProbabilisticRefresh
               (New emptyRedis boolJSON 0 (1 - 1 / 2 ^ 53) lateWaiter [])
               ''k'' (49 * second) (Inr True) 49) \<lparr>now := second\<rparr>"

definition h_negprob :: "bool Handler" where
  "h_negprob = (enableProbabilisticRefresh
                  (New (emptyRedis\<lparr>store := [''k'' \<mapsto> (''true'', 60)]\<rparr>) boolJSON 40 (1 / 2)
                     lateWaiter [WithDefaultTTL (- 60),
                                 WithMissPolicy MissPolicyProbabilisticRefresh])
                  ''k'' (- 60) (Inr True) 1) \<lparr>now := 100\<rparr>"


definition h_slow :: "bool Handler" where
  "h_slow = (New emptyRedis boolJSON 100 0
               \<lparr> waiterRanFirst = False, pickOfReady = CtxDone, firstToArrive = CtxDone \<rparr> [])
            \<lparr>localLocks := \<lparr> locks = [''k'' \<mapsto> 1] \<rparr>\<rparr>"

section \<open>Properties\<close>

lemmas handler_defs = Set_def Get_def rdbGet_def rdbSet_def emit_def setLastRefreshNow_def
  zeroResult_def applyOpts_def WithTTL_def zeroCallOpts_def

lemmas instance_defs = New_def defaultConfig_def emptyRedis_def boolJSON_def lateWaiter_def
  earlyWaiter_def newKeyedMutex_def second_def WithRefreshCooldown_def WithPrefix_def
  WithDefaultTTL_def WithCooperativeTimeout_def WithRefreshAheadThreshold_Option_def
  WithProbabilisticBeta_Option_def WithMissPolicy_def WithStaleDataTTL_def

lemma written_append [simp]: "written (xs @ ys) = written xs @ written ys"
  by (induction xs rule: written.induct) auto

lemma genCalls_append [simp]: "genCalls (xs @ ys) = genCalls xs + genCalls ys"
  by (induction xs rule: genCalls.induct) auto

lemma spawned_append [simp]: "spawned (xs @ ys) = spawned xs @ spawned ys"
  by (induction xs rule: spawned.induct) auto

subsection \<open>Cooldown tracking\<close>

text \<open>
  C8.  \<open>shouldRefreshNow\<close> answers true exactly when the configured cooldown is not
  positive, or no refresh is recorded for the full key, or the time elapsed since the
  recorded refresh is at least the cooldown.  \<open>setLastRefreshNow\<close> changes nothing when
  the cooldown is not positive, and otherwise records the current time for the full key
  (and changes nothing else).
\<close>

theorem cooldown_tracking:
  "(shouldRefreshNow h fk \<longleftrightarrow>
      (refreshCooldown (config h) \<le> 0 \<or> lastRefreshByKey h fk = None \<or>
       (\<exists>t0. lastRefreshByKey h fk = Some t0 \<and> refreshCooldown (config h) \<le> now h - t0)))
   \<and> (refreshCooldown (config h) \<le> 0 \<longrightarrow> setLastRefreshNow h fk = h)
   \<and> (0 < refreshCooldown (config h) \<longrightarrow>
        setLastRefreshNow h fk = h\<lparr>lastRefreshByKey := (lastRefreshByKey h)(fk \<mapsto> now h)\<rparr>)"
  by (auto simp: shouldRefreshNow_def setLastRefreshNow_def split: option.splits)

text \<open>With a cooldown of 5 and the clock at 100: a fresh key may be refreshed; once its
  refresh is recorded it may not, until the clock reaches 105.  With the default cooldown
  of 0 nothing is recorded.\<close>

theorem cooldown_tracking_witness:
  "(let h = New emptyRedis boolJSON 100 0 lateWaiter [WithRefreshCooldown 5];
        h1 = setLastRefreshNow h ''k''
    in 0 < refreshCooldown (config h) \<and> shouldRefreshNow h ''k''
       \<and> h1 = h\<lparr>lastRefreshByKey := (lastRefreshByKey h)(''k'' \<mapsto> 100)\<rparr>
       \<and> \<not> shouldRefreshNow h1 ''k'' \<and> \<not> shouldRefreshNow (h1\<lparr>now := 104\<rparr>) ''k''
       \<and> shouldRefreshNow (h1\<lparr>now := 105\<rparr>) ''k'')
   \<and> (let h = New emptyRedis boolJSON 100 0 lateWaiter [] :: bool Handler
       in refreshCooldown (config h) \<le> 0 \<and> setLastRefreshNow h ''k'' = h
          \<and> shouldRefreshNow h ''k'')"
  using cooldown_tracking [of "New emptyRedis boolJSON 100 0 lateWaiter [WithRefreshCooldown 5]" "''k''"]
    cooldown_tracking [of "New emptyRedis boolJSON 100 0 lateWaiter [] :: bool Handler" "''k''"]
  by (simp add: instance_defs shouldRefreshNow_def setLastRefreshNow_def Let_def)

subsection \<open>BestEffort\<close>

text \<open>
  C6.  The miss path of BestEffort never returns an error.  When the generator fails the
  result is the zero value, not from the cache, stamped with the current time; when the
  generator succeeds the result is the generated value, whatever the backend and the
  encoder do with the write that follows.
\<close>

theorem missBestEffort_never_fails:
  "snd (snd (missBestEffort h key d gen)) = None
   \<and> snd (missBestEffort h key d (Inl ge)) =
       (\<lparr> Value = zero (json h), FromCache = False, CachedAt = Some (now h) \<rparr>, None)
   \<and> snd (missBestEffort h key d (Inr v)) =
       (\<lparr> Value = v, FromCache = False, CachedAt = Some (now h) \<rparr>, None)"
  by (auto simp: missBestEffort_def handler_defs Let_def
           split: sum.splits option.splits prod.splits if_splits)

subsection \<open>Mutual exclusion per key\<close>

lemma buffered_Lock:
  assumes "Lock km k = Some km'"
  shows "buffered km k = 0" and "buffered km' k' = (if k' = k then 1 else buffered km k')"
  using assms
  by (auto simp: Lock_def ch_def buffered_def Let_def split: option.splits if_splits)

lemma buffered_TryLock:
  assumes "TryLock km k = (km', ok)"
  shows "ok \<longleftrightarrow> buffered km k = 0"
    and "buffered km' k' = (if k' = k \<and> ok then 1 else buffered km k')"
  using assms
  by (auto simp: TryLock_def ch_def buffered_def Let_def split: option.splits if_splits)

lemma buffered_unlock:
  assumes "unlock km k = Some km'"
  shows "1 \<le> buffered km k"
    and "buffered km' k' = (if k' = k then buffered km k - 1 else buffered km k')"
  using assms
  by (auto simp: unlock_def buffered_def split: option.splits if_splits)

lemma length_holders_Cons:
  "length (holders \<lparr> mutex = km, holding = (t, k) # xs \<rparr> k') =
     (if k' = k then Suc (length (holders \<lparr> mutex = km0, holding = xs \<rparr> k'))
      else length (holders \<lparr> mutex = km0, holding = xs \<rparr> k'))"
  by (simp add: holders_def)

lemma length_holders_remove1:
  assumes "(t, k) \<in> set xs"
  shows "length (holders \<lparr> mutex = km, holding = remove1 (t, k) xs \<rparr> k') =
         (if k' = k then length (holders \<lparr> mutex = km0, holding = xs \<rparr> k') - 1
          else length (holders \<lparr> mutex = km0, holding = xs \<rparr> k'))"
  using assms
  by (simp add: holders_def filter_remove1 length_remove1)

lemma holders_eq: "holders \<lparr> mutex = km, holding = holding s \<rparr> k = holders s k"
  by (simp add: holders_def)

text \<open>The invariant: for every key, the tasks holding it are as many as the elements in
  the buffer of its channel, and the buffer never holds more than one.\<close>

lemma km_inv_init:
  "length (holders km_init k) = buffered (mutex km_init) k \<and> buffered (mutex km_init) k \<le> 1"
  by (simp add: km_init_def holders_def buffered_def newKeyedMutex_def)

lemma km_inv_step:
  assumes step: "km_step a s = Some s'"
    and inv: "\<And>q. length (holders s q) = buffered (mutex s) q \<and> buffered (mutex s) q \<le> 1"
  shows "length (holders s' k') = buffered (mutex s') k' \<and> buffered (mutex s') k' \<le> 1"
proof (cases a)
  case (ActCh t k)
  with step have s': "s' = s\<lparr>mutex := ch (mutex s) k\<rparr>" by simp
  have "buffered (ch (mutex s) k) k' = buffered (mutex s) k'"
    by (simp add: ch_def buffered_def split: option.splits)
  with inv [of k'] show ?thesis
    by (simp add: s' holders_def)
next
  case (ActLock t k)
  with step obtain km where km: "Lock (mutex s) k = Some km"
    and s': "s' = \<lparr> mutex = km, holding = (t, k) # holding s \<rparr>"
    by (auto split: option.splits)
  show ?thesis
    using inv [of k] inv [of k'] buffered_Lock(1) [OF km] buffered_Lock(2) [OF km, of k']
    by (auto simp: s' length_holders_Cons [where ?km0.0 = "mutex s"] holders_eq)
next
  case (ActTryLock t k)
  obtain km ok where km: "TryLock (mutex s) k = (km, ok)"
    by (cases "TryLock (mutex s) k")
  with step ActTryLock
  have s': "s' = \<lparr> mutex = km, holding = (if ok then (t, k) # holding s else holding s) \<rparr>"
    by (auto split: bool.splits)
  show ?thesis
    using inv [of k] inv [of k'] buffered_TryLock(1) [OF km] buffered_TryLock(2) [OF km, of k']
    by (auto simp: s' length_holders_Cons [where ?km0.0 = "mutex s"] holders_eq)
next
  case (ActUnlock t k)
  with step obtain km where mem: "(t, k) \<in> set (holding s)"
    and km: "unlock (mutex s) k = Some km"
    and s': "s' = \<lparr> mutex = km, holding = remove1 (t, k) (holding s) \<rparr>"
    by (auto split: option.splits if_splits)
  show ?thesis
    using inv [of k] inv [of k'] buffered_unlock(1) [OF km] buffered_unlock(2) [OF km, of k']
    by (auto simp: s' length_holders_remove1 [OF mem, where ?km0.0 = "mutex s"] holders_eq)
qed

lemma km_inv_run:
  assumes "km_run acts s = Some s'"
    and "\<And>q. length (holders s q) = buffered (mutex s) q \<and> buffered (mutex s) q \<le> 1"
  shows "length (holders s' k) = buffered (mutex s') k \<and> buffered (mutex s') k \<le> 1"
  using assms
proof (induction acts arbitrary: s k)
  case Nil
  then show ?case by simp
next
  case (Cons a acts)
  from Cons.prems(1) obtain s1 where s1: "km_step a s = Some s1" and run: "km_run acts s1 = Some s'"
    by (auto split: option.splits)
  show ?case
    by (rule Cons.IH [OF run]) (rule km_inv_step [OF s1 Cons.prems(2)])
qed

text \<open>
  C3.  Whatever tasks do with the keyed mutex - blocking \<open>Lock\<close>, \<open>TryLock\<close>, and the
  releaser invoked once by the task that obtained it - in every state that a run of
  their steps reaches from the new mutex, each key is held by at most one task.  A run is
  any finite interleaving, so the bound holds at every instant; the tasks holding a key
  are the tasks inside its critical section.
\<close>

theorem keyed_mutex_exclusion:
  assumes "km_run acts km_init = Some s"
  shows "length (holders s k) \<le> 1"
  using km_inv_run [OF assms km_inv_init] by simp

lemmas km_defs = km_init_def newKeyedMutex_def Lock_def TryLock_def unlock_def ch_def
  buffered_def holders_def Let_def

text \<open>Task 1 locks \<open>a\<close>; task 2 fails to try-lock it; task 3 locks \<open>b\<close>; task 1
  releases; task 2 now gets \<open>a\<close>.  A second blocking \<open>Lock\<close> of a held key does not
  proceed.\<close>

theorem keyed_mutex_exclusion_witness:
  "km_run [ActLock 1 ''a'', ActTryLock 2 ''a'', ActLock 3 ''b'', ActUnlock 1 ''a'',
           ActTryLock 2 ''a''] km_init
     = Some \<lparr> mutex = \<lparr> locks = [''a'' \<mapsto> 1, ''b'' \<mapsto> 1] \<rparr>,
              holding = [(2, ''a''), (3, ''b'')] \<rparr>
   \<and> length (holders \<lparr> mutex = \<lparr> locks = [''a'' \<mapsto> 1, ''b'' \<mapsto> 1] \<rparr>,
                        holding = [(2, ''a''), (3, ''b'')] \<rparr> ''a'') \<le> 1
   \<and> km_run [ActLock 1 ''a'', ActLock 2 ''a''] km_init = None"
proof -
  have run: "km_run [ActLock 1 ''a'', ActTryLock 2 ''a'', ActLock 3 ''b'', ActUnlock 1 ''a'',
                     ActTryLock 2 ''a''] km_init
     = Some \<lparr> mutex = \<lparr> locks = [''a'' \<mapsto> 1, ''b'' \<mapsto> 1] \<rparr>,
              holding = [(2, ''a''), (3, ''b'')] \<rparr>"
    by (simp add: km_defs fun_upd_twist)
  have blocked: "km_run [ActLock 1 ''a'', ActLock 2 ''a''] km_init = None"
    by (simp add: km_defs)
  from run blocked keyed_mutex_exclusion [OF run, of "''a''"] show ?thesis
    by blast
qed

subsection \<open>The effect of the basic operations\<close>

lemma Set_eq:
  "Set h key v opts =
     (case marshal (json h) v of
        None \<Rightarrow> (h, Some (Wrapped ''marshal'' JSONError))
      | Some b \<Rightarrow>
         if fault (rdb h) OpSet (fullKey h key)
         then (emit (EvRdb OpSet (fullKey h key)) h, Some (Wrapped ''redis set'' RedisTransport))
         else (setLastRefreshNow (wrote h (fullKey h key) b (effTTL (config h) (ttl (applyOpts opts))))
                 (fullKey h key), None))"
  by (auto simp: Set_def rdbSet_def emit_def setLastRefreshNow_def wrote_def effTTL_def fullKey_def Let_def split: option.splits)

lemma applyOpts_WithTTL [simp]: "ttl (applyOpts [WithTTL d]) = d"
  by (simp add: applyOpts_def WithTTL_def zeroCallOpts_def)

lemma Get_eq:
  "Get h key =
     (emit (EvRdb OpGet (fullKey h key)) h,
      if fault (rdb h) OpGet (fullKey h key)
      then (zeroResult h, Some (Wrapped ''redis get'' RedisTransport))
      else case store (rdb h) (fullKey h key) of
             None \<Rightarrow> (zeroResult h, Some RedisNil)
           | Some (b, d0) \<Rightarrow>
               (case unmarshal (json h) b of
                  None \<Rightarrow> (zeroResult h, Some (Wrapped ''unmarshal'' JSONError))
                | Some v \<Rightarrow> (\<lparr> Value = v, FromCache = True, CachedAt = Some (now h) \<rparr>, None)))"
  by (auto simp: Get_def rdbGet_def emit_def zeroResult_def Let_def split: option.splits)

lemma fullKey_emit [simp]: "fullKey (emit e h) k = fullKey h k"
  by (simp add: fullKey_def emit_def)

lemma fullKey_wrote [simp]: "fullKey (wrote h fk b d) k = fullKey h k"
  by (simp add: fullKey_def wrote_def)

lemma fullKey_setLast [simp]: "fullKey (setLastRefreshNow h fk) k = fullKey h k"
  by (simp add: fullKey_def setLastRefreshNow_def)

lemma emit_simps [simp]:
  "config (emit e h) = config h" "localLocks (emit e h) = localLocks h"
  "lastRefreshByKey (emit e h) = lastRefreshByKey h" "rdb (emit e h) = rdb h"
  "json (emit e h) = json h" "now (emit e h) = now h" "rand (emit e h) = rand h"
  "scheduler (emit e h) = scheduler h" "trace (emit e h) = trace h @ [e]"
  by (simp_all add: emit_def)

lemma wrote_simps [simp]:
  "config (wrote h k b d) = config h" "localLocks (wrote h k b d) = localLocks h"
  "lastRefreshByKey (wrote h k b d) = lastRefreshByKey h"
  "store (rdb (wrote h k b d)) = (store (rdb h))(k \<mapsto> (b, d))"
  "fault (rdb (wrote h k b d)) = fault (rdb h)"
  "remaining (rdb (wrote h k b d)) = remaining (rdb h)"
  "json (wrote h k b d) = json h" "now (wrote h k b d) = now h" "rand (wrote h k b d) = rand h"
  "scheduler (wrote h k b d) = scheduler h"
  "trace (wrote h k b d) = trace h @ [EvRdb OpSet k, EvWrote k b d]"
  by (simp_all add: wrote_def)

lemma setLastRefreshNow_simps [simp]:
  "config (setLastRefreshNow h fk) = config h" "localLocks (setLastRefreshNow h fk) = localLocks h"
  "rdb (setLastRefreshNow h fk) = rdb h"
  "json (setLastRefreshNow h fk) = json h" "now (setLastRefreshNow h fk) = now h"
  "rand (setLastRefreshNow h fk) = rand h"
  "scheduler (setLastRefreshNow h fk) = scheduler h"
  "trace (setLastRefreshNow h fk) = trace h"
  by (simp_all add: setLastRefreshNow_def)

lemma zeroResult_simps [simp]:
  "zeroResult (emit e h) = zeroResult h" "zeroResult (wrote h k b d) = zeroResult h"
  "zeroResult (setLastRefreshNow h fk) = zeroResult h"
  by (simp_all add: zeroResult_def)

lemma Lock_eq:
  "Lock km k = (if buffered km k = 0 then Some (km\<lparr>locks := (locks km)(k \<mapsto> 1)\<rparr>) else None)"
  by (auto simp: Lock_def ch_def buffered_def Let_def split: option.splits)

lemma TryLock_eq:
  "TryLock km k =
     (if buffered km k = 0 then (km\<lparr>locks := (locks km)(k \<mapsto> 1)\<rparr>, True) else (km, False))"
  by (auto simp: TryLock_def ch_def buffered_def Let_def split: option.splits)

lemma unlock_taken [simp]:
  "unlock (km\<lparr>locks := (locks km)(k \<mapsto> Suc 0)\<rparr>) k = Some (km\<lparr>locks := (locks km)(k \<mapsto> 0)\<rparr>)"
  by (simp add: unlock_def buffered_def)

lemma buffered_released [simp]: "buffered (km\<lparr>locks := (locks km)(k \<mapsto> 0)\<rparr>) k = 0"
  by (simp add: buffered_def)

lemma localLocks_update_simps [simp]:
  "fullKey (h\<lparr>localLocks := km\<rparr>) k = fullKey h k"
  "zeroResult (h\<lparr>localLocks := km\<rparr>) = zeroResult h"
  by (simp_all add: fullKey_def zeroResult_def)

lemma setToKey_eq:
  "setToKey h fk v d =
     (case marshal (json h) v of
        None \<Rightarrow> (h, Some JSONError)
      | Some b \<Rightarrow>
          if fault (rdb h) OpSet fk then (emit (EvRdb OpSet fk) h, Some RedisTransport)
          else (wrote h fk b d, None))"
  by (simp add: setToKey_def rdbSet_def wrote_def emit_def split: option.splits)

lemma rdbExists_eq:
  "rdbExists h k =
     (emit (EvRdb OpExists k) h,
      if fault (rdb h) OpExists k then Inl RedisTransport
      else if store (rdb h) k = None then Inr 0 else Inr 1)"
  by (auto simp: rdbExists_def split: option.splits)

lemma lastRefresh_setLast:
  "lastRefreshByKey (setLastRefreshNow h fk) =
     (if refreshCooldown (config h) \<le> 0 then lastRefreshByKey h
      else (lastRefreshByKey h)(fk \<mapsto> now h))"
  by (simp add: setLastRefreshNow_def)

lemma getFromKey_eq:
  "getFromKey h fk =
     (emit (EvRdb OpGet fk) h,
      if fault (rdb h) OpGet fk then Inl RedisTransport
      else case store (rdb h) fk of
             None \<Rightarrow> Inl RedisNil
           | Some (b, d0) \<Rightarrow>
               (case unmarshal (json h) b of None \<Rightarrow> Inl JSONError | Some v \<Rightarrow> Inr v))"
  by (auto simp: getFromKey_def rdbGet_def split: option.splits)

lemma fullKey_stale: "fullKey h (k @ '':stale'') = fullKey h k @ '':stale''"
  by (simp add: fullKey_def)

lemmas eval_defs = instance_defs handler_defs fullKey_def Lock_def TryLock_def unlock_def ch_def
  buffered_def deferUnlock_def setToKey_def rdbExists_def rdbTTL_def getFromKey_def Let_def



lemma h_new_facts:
  "buffered (localLocks h_new) (fullKey h_new ''k'') = 0"
  "fullKey h_new ''k'' = ''k''"
  "store (rdb h_new) ''k'' = None"
  "\<not> fault (rdb h_new) OpGet ''k''" "\<not> fault (rdb h_new) OpSet ''k''"
  "marshal (json h_new) True = Some ''true''"
  "now h_new = 100" "trace h_new = []" "effTTL (config h_new) 60 = 60"
  by (simp_all add: h_new_def instance_defs buffered_def fullKey_def effTTL_def)


lemma h_cool_facts:
  "fullKey h_cool ''k'' = ''k''" "now h_cool = 100" "trace h_cool = []"
  "lastRefreshByKey h_cool = Map.empty" "refreshCooldown (config h_cool) = 5000000000"
  "marshal (json h_cool) True = Some ''true''"
  "\<not> fault (rdb h_cool) OpSet k" "buffered (localLocks h_cool) k = 0"
  "effTTL (config h_cool) 60 = 60" "staleDataTTL (config h_cool) = 86400000000000"
  by (simp_all add: h_cool_def instance_defs buffered_def fullKey_def effTTL_def)

lemma h_cool_more:
  "store (rdb h_cool) k = None" "\<not> fault (rdb h_cool) op k"
  by (simp_all add: h_cool_def instance_defs)



lemma h_swr_facts:
  "fullKey h_swr k = ''p:'' @ k" "now h_swr = 100" "trace h_swr = []"
  "store (rdb h_swr) k = None" "\<not> fault (rdb h_swr) op k"
  "marshal (json h_swr) True = Some ''true''"
  "unmarshal (json h_swr) ''true'' = Some True"
  "defaultMissPolicy (config h_swr) = MissPolicyStaleWhileRevalidate"
  "applyOpts [] = zeroCallOpts"
  by (simp_all add: h_swr_def instance_defs fullKey_def applyOpts_def)

subsection \<open>Set followed by Get\<close>

text \<open>
  C5.  After a successful \<open>Set\<close> of \<open>v\<close> at a key, a \<open>Get\<close> of that key on the
  state \<open>Set\<close> left (nothing expired or changed in between) whose read reaches the
  backend returns \<open>v\<close> with \<open>FromCache\<close> true and no error, for every value \<open>v\<close>
  that the codec decodes back from its own encoding: \<open>decode (encode v) = v\<close>.
\<close>

theorem Set_then_Get:
  assumes set: "Set h key v opts = (h1, None)"
    and roundtrip: "\<And>b. marshal (json h) v = Some b \<Longrightarrow> unmarshal (json h) b = Some v"
    and reachable: "\<not> fault (rdb h) OpGet (fullKey h key)"
  shows "snd (Get h1 key) = (\<lparr> Value = v, FromCache = True, CachedAt = Some (now h) \<rparr>, None)"
proof -
  from set obtain b where b: "marshal (json h) v = Some b"
    and h1: "h1 = setLastRefreshNow (wrote h (fullKey h key) b (effTTL (config h) (ttl (applyOpts opts)))) (fullKey h key)"
    by (auto simp: Set_eq split: option.splits if_splits)
  from roundtrip [OF b] reachable show ?thesis
    by (simp add: Get_eq h1)
qed

text \<open>On a new handler over an empty backend, with the JSON codec of \<open>bool\<close>.\<close>

theorem Set_then_Get_witness:
  "snd (Set h_new ''k'' True []) = None
   \<and> snd (Get (fst (Set h_new ''k'' True [])) ''k'')
       = (\<lparr> Value = True, FromCache = True, CachedAt = Some 100 \<rparr>, None)"
proof -
  have s: "Set h_new ''k'' True [] = (fst (Set h_new ''k'' True []), None)"
    by (simp add: Set_eq h_new_facts)
  have r: "\<And>b. marshal (json h_new) True = Some b \<Longrightarrow> unmarshal (json h_new) b = Some True"
    by (auto simp: h_new_def instance_defs)
  have g: "\<not> fault (rdb h_new) OpGet (fullKey h_new ''k'')"
    by (simp add: h_new_facts)
  have s2: "snd (Set h_new ''k'' True []) = None"
    by (simp add: Set_eq h_new_facts)
  from Set_then_Get [OF s r g] s2 show ?thesis
    by (simp add: h_new_facts(7))
qed

subsection \<open>The synchronous miss handler\<close>





lemma sync_absent_written:
  assumes "buffered (localLocks h) (fullKey h key) = 0"
    and "store (rdb h) (fullKey h key) = None"
    and "\<not> fault (rdb h) OpGet (fullKey h key)"
    and "marshal (json h) v = Some b"
    and "\<not> fault (rdb h) OpSet (fullKey h key)"
  shows "\<exists>h'. missSyncWriteThenReturn h key d (Inr v) =
               Some (h', \<lparr> Value = v, FromCache = False, CachedAt = Some (now h) \<rparr>, None)
          \<and> trace h' = trace h @ [EvLock (fullKey h key), EvRdb OpGet (fullKey h key), EvGen,
                                   EvRdb OpSet (fullKey h key),
                                   EvWrote (fullKey h key) b (effTTL (config h) d),
                                   EvUnlock (fullKey h key)]
          \<and> store (rdb h') = (store (rdb h))(fullKey h key \<mapsto> (b, effTTL (config h) d))
          \<and> lastRefreshByKey h' = lastRefreshByKey (setLastRefreshNow h (fullKey h key))
          \<and> buffered (localLocks h') (fullKey h key) = 0
          \<and> locks (localLocks h') = (locks (localLocks h))(fullKey h key \<mapsto> 0)"
  using assms
  by (simp add: missSyncWriteThenReturn_def Lock_eq Get_eq Set_eq deferUnlock_def Let_def
                setLastRefreshNow_def)









subsection \<open>Cache writes and the refresh ledger\<close>

lemma Set_writes:
  assumes "Set h key v opts = (h', None)"
  shows "throughSet h h' (fullKey h key) v (effTTL (config h) (ttl (applyOpts opts)))"
  using assms
  by (auto simp: Set_eq throughSet_def newWrites_def lastRefresh_setLast
           split: option.splits if_splits)

lemma Set_fails:
  assumes "Set h key v opts = (h', Some e)"
  shows "noWrite h h'"
  using assms
  by (auto simp: Set_eq noWrite_def newWrites_def split: option.splits if_splits)

lemma sync_writes:
  assumes "missSyncWriteThenReturn h key d gen = Some (h', res, err)"
  shows "noWrite h h' \<or>
         (\<exists>v. gen = Inr v \<and> throughSet h h' (fullKey h key) v (effTTL (config h) d))"
  using assms
  by (auto simp: missSyncWriteThenReturn_def Lock_eq Get_eq Set_eq deferUnlock_def Let_def
                 noWrite_def throughSet_def newWrites_def lastRefresh_setLast
           split: option.splits if_splits sum.splits prod.splits)

lemma bgMissWrite_writes:
  assumes "spawnBackgroundMissWrite h key d v = Some h'"
  shows "noWrite h h' \<or> throughSet h h' (fullKey h key) v (effTTL (config h) d)"
  using assms
  by (auto simp: spawnBackgroundMissWrite_def TryLock_eq rdbExists_eq Set_eq deferUnlock_def Let_def
                 noWrite_def throughSet_def newWrites_def lastRefresh_setLast
           split: option.splits if_splits sum.splits prod.splits)


lemma fullKey_stale_neq [simp]: "fullKey h key @ '':stale'' \<noteq> fullKey h key"
  "fullKey h key \<noteq> fullKey h key @ '':stale''"
  by simp_all

lemma staleRefresh_writes:
  assumes "spawnStaleRefresh h key d gen = Some h'"
  shows "(\<forall>w \<in> set (newWrites h h').
            (\<exists>v. gen = Inr v \<and> marshal (json h) v = Some (fst (snd w))) \<and>
            (w = (fullKey h key, fst (snd w), effTTL (config h) d) \<and>
               lastRefreshByKey h' = lastRefreshByKey (setLastRefreshNow h (fullKey h key))
             \<or> w = (fullKey h key @ '':stale'', fst (snd w), staleDataTTL (config h))))
         \<and> lastRefreshByKey h' (fullKey h key @ '':stale'')
             = lastRefreshByKey h (fullKey h key @ '':stale'')"
  using assms
  by (auto simp: spawnStaleRefresh_def TryLock_eq Set_eq setToKey_eq deferUnlock_def Let_def
                 fullKey_stale newWrites_def lastRefresh_setLast
           split: option.splits if_splits sum.splits prod.splits)

lemma stale_run:
  "spawnStaleRefresh h_cool ''k'' 60 (Inr True) =
     Some (h_cool\<lparr> localLocks := (localLocks h_cool)\<lparr>locks := [''k'' \<mapsto> 0]\<rparr>,
                   lastRefreshByKey := [''k'' \<mapsto> 100],
                   rdb := (rdb h_cool)\<lparr>store := [''k'' \<mapsto> (''true'', 60),
                                                   ''k:stale'' \<mapsto> (''true'', 86400000000000)]\<rparr>,
                   trace := [EvTryLock ''k'' True, EvGen, EvRdb OpSet ''k'',
                             EvWrote ''k'' ''true'' 60, EvRdb OpSet ''k:stale'',
                             EvWrote ''k:stale'' ''true'' 86400000000000, EvUnlock ''k''] \<rparr>)"
  by (simp add: h_cool_def spawnStaleRefresh_def eval_defs)

text \<open>
  C1, as the code has it.  The writes of \<open>Set\<close>, of the synchronous miss handler, of the
  background miss write and the main-key write of the stale refresh all go through
  \<open>Set\<close>: the value is encoded, written at the full key with the effective TTL, and
  \<open>setLastRefreshNow\<close> is applied to that key (it records the time when the cooldown is
  positive).  The stale-key write of the stale refresh goes through \<open>setToKey\<close>: the
  value is encoded and written at the stale key with \<open>staleDataTTL\<close>, and the ledger
  entry of the stale key is left as it was.
\<close>

theorem cache_writes_and_ledger:
  "(Set h key v opts = (h', None) \<longrightarrow>
      throughSet h h' (fullKey h key) v (effTTL (config h) (ttl (applyOpts opts))))
   \<and> (missSyncWriteThenReturn h key d gen = Some (h', res, err) \<longrightarrow>
      noWrite h h' \<or> (\<exists>x. gen = Inr x \<and> throughSet h h' (fullKey h key) x (effTTL (config h) d)))
   \<and> (spawnBackgroundMissWrite h key d v = Some h' \<longrightarrow>
      noWrite h h' \<or> throughSet h h' (fullKey h key) v (effTTL (config h) d))
   \<and> (spawnStaleRefresh h key d gen = Some h' \<longrightarrow>
      (\<forall>w \<in> set (newWrites h h').
          (\<exists>x. gen = Inr x \<and> marshal (json h) x = Some (fst (snd w))) \<and>
          (w = (fullKey h key, fst (snd w), effTTL (config h) d) \<and>
             lastRefreshByKey h' = lastRefreshByKey (setLastRefreshNow h (fullKey h key))
           \<or> w = (fullKey h key @ '':stale'', fst (snd w), staleDataTTL (config h))))
      \<and> lastRefreshByKey h' (fullKey h key @ '':stale'')
          = lastRefreshByKey h (fullKey h key @ '':stale''))"
  using Set_writes [of h key v opts h'] sync_writes [of h key d gen h' res err]
    bgMissWrite_writes [of h key d v h'] staleRefresh_writes [of h key d gen h']
  by blast

text \<open>With a cooldown of five seconds: \<open>Set\<close>, the synchronous miss handler and the
  background miss write each write \<open>k\<close> through \<open>Set\<close>; the stale refresh writes
  both keys and records only the main one.\<close>

theorem cache_writes_and_ledger_witness:
  "throughSet h_cool (fst (Set h_cool ''k'' True [WithTTL 60])) ''k'' True 60
   \<and> lastRefreshByKey (fst (Set h_cool ''k'' True [WithTTL 60])) ''k'' = Some 100
   \<and> (\<exists>h' res. missSyncWriteThenReturn h_cool ''k'' 60 (Inr True) = Some (h', res, None)
          \<and> throughSet h_cool h' ''k'' True 60)
   \<and> (\<exists>h'. spawnBackgroundMissWrite h_cool ''k'' 60 True = Some h'
          \<and> throughSet h_cool h' ''k'' True 60)
   \<and> (\<exists>h'. spawnStaleRefresh h_cool ''k'' 60 (Inr True) = Some h'
          \<and> newWrites h_cool h' = [(''k'', ''true'', 60), (''k:stale'', ''true'', 86400000000000)]
          \<and> lastRefreshByKey h' ''k:stale'' = None)"
proof -
  let ?h1 = "fst (Set h_cool ''k'' True [WithTTL 60])"
  have s: "Set h_cool ''k'' True [WithTTL 60] = (?h1, None)"
    by (simp add: Set_eq h_cool_facts)
  from cache_writes_and_ledger [of h_cool "''k''" True "[WithTTL 60]" ?h1] s
  have a: "throughSet h_cool ?h1 ''k'' True 60"
    by (simp add: h_cool_facts)
  then have b: "lastRefreshByKey ?h1 ''k'' = Some 100"
    by (simp add: throughSet_def h_cool_facts lastRefresh_setLast)
  obtain h2 where sync: "missSyncWriteThenReturn h_cool ''k'' 60 (Inr True) =
        Some (h2, \<lparr> Value = True, FromCache = False, CachedAt = Some (now h_cool) \<rparr>, None)"
    and tr2: "trace h2 = trace h_cool @ [EvLock ''k'', EvRdb OpGet ''k'', EvGen, EvRdb OpSet ''k'',
                                        EvWrote ''k'' ''true'' 60, EvUnlock ''k'']"
    using sync_absent_written [of h_cool "''k''" True "''true''" 60]
    by (auto simp: h_cool_facts h_cool_more)
  from tr2 have "\<not> noWrite h_cool h2"
    by (simp add: noWrite_def newWrites_def)
  with cache_writes_and_ledger [of h_cool "''k''" True "[]" h2 60 "Inr True"
         "\<lparr> Value = True, FromCache = False, CachedAt = Some (now h_cool) \<rparr>" None] sync
  have c: "throughSet h_cool h2 ''k'' True 60"
    by (auto simp: h_cool_facts)
  obtain h3 where bg: "spawnBackgroundMissWrite h_cool ''k'' 60 True = Some h3"
    and tr3: "newWrites h_cool h3 = [(''k'', ''true'', 60)]"
    by (simp add: spawnBackgroundMissWrite_def TryLock_eq rdbExists_eq Set_eq deferUnlock_def
          Let_def newWrites_def h_cool_facts h_cool_more)
  from tr3 have "\<not> noWrite h_cool h3"
    by (simp add: noWrite_def)
  with cache_writes_and_ledger [of h_cool "''k''" True "[]" h3 60 "Inr True" "zeroResult h_cool" None] bg
  have d: "throughSet h_cool h3 ''k'' True 60"
    by (auto simp: h_cool_facts)
  obtain h' where run: "spawnStaleRefresh h_cool ''k'' 60 (Inr True) = Some h'"
    and w: "newWrites h_cool h' = [(''k'', ''true'', 60), (''k:stale'', ''true'', 86400000000000)]"
    by (simp add: stale_run newWrites_def h_cool_facts)
  from cache_writes_and_ledger [of h_cool "''k''" _ _ h' 60 "Inr True"] run
  have "lastRefreshByKey h' (fullKey h_cool ''k'' @ '':stale'')
          = lastRefreshByKey h_cool (fullKey h_cool ''k'' @ '':stale'')"
    by blast
  then have e: "lastRefreshByKey h' ''k:stale'' = None"
    by (simp add: h_cool_facts)
  from a b sync c bg d run w e show ?thesis by blast
qed

text \<open>
  C1 as stated fails for the stale-key write: with a positive cooldown, after a stale
  refresh that wrote \<open>k\<close> and \<open>k:stale\<close>, the ledger holds the current time for
  \<open>k\<close> and nothing for \<open>k:stale\<close>, where \<open>setLastRefreshNow\<close> would have
  recorded the current time.
\<close>

theorem stale_write_skips_ledger:
  "map_option (\<lambda>h'. (newWrites h_cool h', lastRefreshByKey h' ''k'', lastRefreshByKey h' ''k:stale'',
                      lastRefreshByKey (setLastRefreshNow h_cool ''k:stale'') ''k:stale''))
     (spawnStaleRefresh h_cool ''k'' 60 (Inr True))
   = Some ([(''k'', ''true'', 60), (''k:stale'', ''true'', 86400000000000)], Some 100, None, Some 100)
   \<and> \<not> (case spawnStaleRefresh h_cool ''k'' 60 (Inr True) of
            None \<Rightarrow> True
          | Some h' \<Rightarrow> ledgerFollowsWrites h_cool h')"
  by (simp add: stale_run newWrites_def ledgerFollowsWrites_def h_cool_facts setLastRefreshNow_def)

subsection \<open>The stale companion key\<close>

lemma stale_hit_after_Set:
  assumes set: "Set h (k @ '':stale'') v opts = (h1, None)"
    and roundtrip: "\<And>b. marshal (json h) v = Some b \<Longrightarrow> unmarshal (json h) b = Some v"
    and miss: "store (rdb h) (fullKey h k) = None" "\<not> fault (rdb h) OpGet (fullKey h k)"
    and reach: "\<not> fault (rdb h) OpGet (fullKey h k @ '':stale'')"
    and policy: "(case overrideMissPolicy (applyOpts opts2) of
                    None \<Rightarrow> defaultMissPolicy (config h) | Some p \<Rightarrow> p)
                 = MissPolicyStaleWhileRevalidate"
  shows "\<exists>h2. GetOrRefresh h1 k gen opts2 =
                Some (h2, \<lparr> Value = v, FromCache = True, CachedAt = Some (now h) \<rparr>, None)
           \<and> trace h2 = trace h1 @
                [EvRdb OpGet (fullKey h k), EvRdb OpGet (fullKey h k @ '':stale''),
                 EvGo (StaleRefresh k (effTTL (config h) (ttl (applyOpts opts2))) gen)]"
proof -
  from set obtain b where b: "marshal (json h) v = Some b"
    and h1: "h1 = setLastRefreshNow
                    (wrote h (fullKey h k @ '':stale'') b (effTTL (config h) (ttl (applyOpts opts))))
                    (fullKey h k @ '':stale'')"
    by (auto simp: Set_eq fullKey_stale split: option.splits if_splits)
  have cfg: "config h1 = config h" "json h1 = json h" "now h1 = now h"
    "fault (rdb h1) = fault (rdb h)"
    by (simp_all add: h1)
  have keys: "fullKey h1 k = fullKey h k"
    by (simp add: fullKey_def cfg)
  have main: "store (rdb h1) (fullKey h k) = None"
    using miss by (simp add: h1)
  have stale: "store (rdb h1) (fullKey h k @ '':stale'')
                 = Some (b, effTTL (config h) (ttl (applyOpts opts)))"
    by (simp add: h1)
  from policy have pol:
    "(case overrideMissPolicy (applyOpts opts2) of
        None \<Rightarrow> defaultMissPolicy (config h1) | Some p \<Rightarrow> p)
     = MissPolicyStaleWhileRevalidate"
    by (simp only: cfg(1))
  show ?thesis
    using roundtrip [OF b] miss(2) reach
    by (simp add: GetOrRefresh_def Let_def pol Get_eq keys main stale cfg
          missStaleWhileRevalidate_def getFromKey_eq fullKey_stale effTTL_def)
qed

text \<open>
  C10.  For every prefix and user key \<open>k\<close>, the full key of \<open>k:stale\<close> is the full
  key of \<open>k\<close> followed by \<open>:stale\<close>, which is the stale companion key of \<open>k\<close>.
  So after a successful \<open>Set\<close> of \<open>v\<close> at the user key \<open>k:stale\<close>, a
  \<open>GetOrRefresh\<close> of \<open>k\<close> under StaleWhileRevalidate that misses on \<open>k\<close> reads
  that entry as stale data: it returns \<open>v\<close> with \<open>FromCache\<close> true, without
  invoking the generator, and starts a stale refresh (the codec decoding \<open>v\<close> back
  from its encoding, and both reads reaching the backend).
\<close>

theorem stale_companion_collision:
  "fullKey h (k @ '':stale'') = fullKey h k @ '':stale''
   \<and> (Set h (k @ '':stale'') v opts = (h1, None)
       \<and> (\<forall>b. marshal (json h) v = Some b \<longrightarrow> unmarshal (json h) b = Some v)
       \<and> store (rdb h) (fullKey h k) = None
       \<and> \<not> fault (rdb h) OpGet (fullKey h k)
       \<and> \<not> fault (rdb h) OpGet (fullKey h k @ '':stale'')
       \<and> (case overrideMissPolicy (applyOpts opts2) of
             None \<Rightarrow> defaultMissPolicy (config h) | Some p \<Rightarrow> p)
           = MissPolicyStaleWhileRevalidate
       \<longrightarrow> (\<exists>h2. GetOrRefresh h1 k gen opts2 =
                     Some (h2, \<lparr> Value = v, FromCache = True, CachedAt = Some (now h) \<rparr>, None)
              \<and> trace h2 = trace h1 @
                   [EvRdb OpGet (fullKey h k), EvRdb OpGet (fullKey h k @ '':stale''),
                    EvGo (StaleRefresh k (effTTL (config h) (ttl (applyOpts opts2))) gen)]))"
  using stale_hit_after_Set [of h k v opts h1 opts2 gen]
  by (auto simp: fullKey_stale)

text \<open>With prefix \<open>p\<close> and StaleWhileRevalidate as the default policy.\<close>

theorem stale_companion_collision_witness:
  "fullKey h_swr ''k:stale'' = ''p:k:stale''
   \<and> snd (Set h_swr ''k:stale'' True []) = None
   \<and> (\<exists>h2. GetOrRefresh (fst (Set h_swr ''k:stale'' True [])) ''k'' (Inr False) [] =
              Some (h2, \<lparr> Value = True, FromCache = True, CachedAt = Some 100 \<rparr>, None))"
proof -
  let ?h1 = "fst (Set h_swr ''k:stale'' True [])"
  have s: "Set h_swr (''k'' @ '':stale'') True [] = (?h1, None)"
    by (simp add: Set_eq h_swr_facts)
  have r: "\<forall>b. marshal (json h_swr) True = Some b \<longrightarrow> unmarshal (json h_swr) b = Some True"
    by (simp add: h_swr_facts)
  have p: "(case overrideMissPolicy (applyOpts []) of
              None \<Rightarrow> defaultMissPolicy (config h_swr) | Some p \<Rightarrow> p)
           = MissPolicyStaleWhileRevalidate"
    by (simp add: h_swr_facts zeroCallOpts_def)
  from stale_companion_collision [of h_swr "''k''" True "[]" ?h1 "[]" "Inr False"] s r p
  have "\<exists>h2. GetOrRefresh ?h1 ''k'' (Inr False) [] =
               Some (h2, \<lparr> Value = True, FromCache = True, CachedAt = Some (now h_swr) \<rparr>, None)"
    by (simp add: h_swr_facts) blast
  moreover have "fullKey h_swr ''k:stale'' = ''p:k:stale''"
    by (simp add: h_swr_facts)
  moreover have "snd (Set h_swr ''k:stale'' True []) = None"
    by (simp add: Set_eq h_swr_facts)
  ultimately show ?thesis
    by (simp add: h_swr_facts)
qed

subsection \<open>Refresh-ahead on a hit\<close>










subsection \<open>CooperativeRefresh\<close>

lemma coop_timeout_branch:
  assumes "coopSelect (emit (EvGo (LockWaiter (fullKey h key))) h) (fullKey h key) = CtxDone"
  shows "\<exists>h'. missCooperativeRefresh h key d gen =
             Some (h', (case gen of
                          Inl ge \<Rightarrow> zeroResult h
                        | Inr v \<Rightarrow> \<lparr> Value = v, FromCache = False, CachedAt = Some (now h) \<rparr>),
                       (case gen of Inl ge \<Rightarrow> Some (Wrapped ''generator'' ge) | Inr v \<Rightarrow> None))
           \<and> trace h' = trace h @ [EvGo (LockWaiter (fullKey h key)), EvGen]
           \<and> rdb h' = rdb h \<and> lastRefreshByKey h' = lastRefreshByKey h"
  using assms
  by (auto simp: missCooperativeRefresh_def Let_def split: sum.splits)

text \<open>
  C7, as the code has it.  When the \<open>select\<close> of \<open>missCooperativeRefresh\<close> takes the
  case of the expired context, the handler invokes the generator once and returns its
  value with \<open>FromCache\<close> false (or its error, wrapped), without touching the backend or
  the ledger.  With a cooperative timeout of 0 (or less) the context is expired from the
  start, and that case is taken whenever the waiting goroutine has not closed \<open>done\<close>
  by then: when it has not run yet, or when the lock is held.  With a positive timeout it
  is taken when the deadline arrives first while the lock is not obtained.
\<close>

theorem cooperative_timeout_fallback:
  "(coopSelect (emit (EvGo (LockWaiter (fullKey h key))) h) (fullKey h key) = CtxDone \<longrightarrow>
      (\<exists>h'. missCooperativeRefresh h key d gen =
             Some (h', (case gen of
                          Inl ge \<Rightarrow> zeroResult h
                        | Inr v \<Rightarrow> \<lparr> Value = v, FromCache = False, CachedAt = Some (now h) \<rparr>),
                       (case gen of Inl ge \<Rightarrow> Some (Wrapped ''generator'' ge) | Inr v \<Rightarrow> None))
           \<and> trace h' = trace h @ [EvGo (LockWaiter (fullKey h key)), EvGen]
           \<and> rdb h' = rdb h \<and> lastRefreshByKey h' = lastRefreshByKey h))
   \<and> (cooperativeTimeout (config h) \<le> 0
       \<and> (\<not> waiterRanFirst (scheduler h) \<or> buffered (localLocks h) (fullKey h key) \<noteq> 0) \<longrightarrow>
      coopSelect (emit (EvGo (LockWaiter (fullKey h key))) h) (fullKey h key) = CtxDone)
   \<and> (0 < cooperativeTimeout (config h)
       \<and> (\<not> waiterRanFirst (scheduler h) \<or> buffered (localLocks h) (fullKey h key) \<noteq> 0)
       \<and> firstToArrive (scheduler h) = CtxDone \<longrightarrow>
      coopSelect (emit (EvGo (LockWaiter (fullKey h key))) h) (fullKey h key) = CtxDone)"
  using coop_timeout_branch [of h key d gen]
  by (auto simp: coopSelect_def Lock_eq Let_def)

lemma h_slow_facts:
  "fullKey h_slow ''k'' = ''k''" "0 < cooperativeTimeout (config h_slow)"
  "buffered (localLocks h_slow) ''k'' \<noteq> 0" "firstToArrive (scheduler h_slow) = CtxDone"
  "now h_slow = 100" "trace h_slow = []" "store (rdb h_slow) = Map.empty"
  by (simp_all add: h_slow_def instance_defs fullKey_def buffered_def)

lemma h_coop0_facts:
  "fullKey h_coop0 ''k'' = ''k''" "cooperativeTimeout (config h_coop0) = 0"
  "\<not> waiterRanFirst (scheduler h_coop0)" "now h_coop0 = 100" "trace h_coop0 = []"
  "store (rdb h_coop0) = Map.empty"
  by (simp_all add: h_coop0_def instance_defs fullKey_def)

text \<open>Timeout 0 with the waiting goroutine not yet run; timeout of ten seconds with the
  lock held and the deadline first.\<close>

theorem cooperative_timeout_fallback_witness:
  "cooperativeTimeout (config h_coop0) \<le> 0 \<and> \<not> waiterRanFirst (scheduler h_coop0)
   \<and> (\<exists>h'. missCooperativeRefresh h_coop0 ''k'' 60 (Inr True) =
               Some (h', \<lparr> Value = True, FromCache = False, CachedAt = Some 100 \<rparr>, None)
          \<and> trace h' = [EvGo (LockWaiter ''k''), EvGen]
          \<and> store (rdb h') = Map.empty)
   \<and> 0 < cooperativeTimeout (config h_slow) \<and> buffered (localLocks h_slow) ''k'' \<noteq> 0
   \<and> (\<exists>h'. missCooperativeRefresh h_slow ''k'' 60 (Inr True) =
               Some (h', \<lparr> Value = True, FromCache = False, CachedAt = Some 100 \<rparr>, None)
          \<and> trace h' = [EvGo (LockWaiter ''k''), EvGen]
          \<and> store (rdb h') = Map.empty)"
proof -
  have t: "cooperativeTimeout (config h_coop0) \<le> 0" and w: "\<not> waiterRanFirst (scheduler h_coop0)"
    by (simp_all add: h_coop0_facts)
  from cooperative_timeout_fallback [of h_coop0 "''k''" 60 "Inr True"] t w
  have a: "\<exists>h'. missCooperativeRefresh h_coop0 ''k'' 60 (Inr True) =
             Some (h', \<lparr> Value = True, FromCache = False, CachedAt = Some (now h_coop0) \<rparr>, None)
           \<and> trace h' = trace h_coop0 @ [EvGo (LockWaiter (fullKey h_coop0 ''k'')), EvGen]
           \<and> rdb h' = rdb h_coop0 \<and> lastRefreshByKey h' = lastRefreshByKey h_coop0"
    by simp
  have t2: "0 < cooperativeTimeout (config h_slow)"
    and b2: "buffered (localLocks h_slow) (fullKey h_slow ''k'') \<noteq> 0"
    and f2: "firstToArrive (scheduler h_slow) = CtxDone"
    by (simp_all add: h_slow_facts)
  from cooperative_timeout_fallback [of h_slow "''k''" 60 "Inr True"] t2 b2 f2
  have b: "\<exists>h'. missCooperativeRefresh h_slow ''k'' 60 (Inr True) =
             Some (h', \<lparr> Value = True, FromCache = False, CachedAt = Some (now h_slow) \<rparr>, None)
           \<and> trace h' = trace h_slow @ [EvGo (LockWaiter (fullKey h_slow ''k'')), EvGen]
           \<and> rdb h' = rdb h_slow \<and> lastRefreshByKey h' = lastRefreshByKey h_slow"
    by simp
  from a b t w t2 show ?thesis
    by (auto simp: h_coop0_facts h_slow_facts)
qed

text \<open>
  C7 as stated fails for a timeout of 0 when the lock is free and the waiting goroutine
  has already closed \<open>done\<close>: both cases of the \<open>select\<close> are ready, the choice
  between them is Go's, and when it falls on \<open>done\<close> the synchronous path runs and
  writes to the cache.
\<close>

theorem timeout_zero_can_write:
  "cooperativeTimeout (config h_race) = 0
   \<and> map_option (\<lambda>(h', res, err). (written (trace h'), store (rdb h') ''k'', res, err))
        (missCooperativeRefresh h_race ''k'' 60 (Inr True))
     = Some ([(''k'', ''true'', 60)], Some (''true'', 60),
             \<lparr> Value = True, FromCache = False, CachedAt = Some 100 \<rparr>, None)"
  by (simp add: h_race_def missCooperativeRefresh_def coopSelect_def missSyncWriteThenReturn_def
        eval_defs)

subsection \<open>Rounding to binary64\<close>

lemma bitlen_if: "bitlen n = (if n = 0 then 0 else Suc (bitlen (n div 2)))"
  by (cases n) simp_all

lemma bitlen_upper: "n < 2 ^ bitlen n"
proof (induction n rule: bitlen.induct)
  case 1
  show ?case by simp
next
  case (2 n)
  have "Suc n < 2 * (Suc n div 2) + 2" by arith
  also from 2 have "\<dots> \<le> 2 * 2 ^ bitlen (Suc n div 2)" by simp
  finally show ?case by simp
qed

lemma bitlen_pos: "0 < n \<Longrightarrow> 0 < bitlen n"
  by (cases n) simp_all

lemma bitlen_lower: "0 < n \<Longrightarrow> 2 ^ (bitlen n - 1) \<le> n"
proof (induction n rule: bitlen.induct)
  case 1
  then show ?case by simp
next
  case (2 n)
  show ?case
  proof (cases "Suc n div 2 = 0")
    case True
    then show ?thesis by simp
  next
    case False
    then have p: "0 < Suc n div 2" by simp
    with 2 have "2 ^ (bitlen (Suc n div 2) - 1) \<le> Suc n div 2" by simp
    moreover from bitlen_pos [OF p] have "bitlen (Suc n div 2) = Suc (bitlen (Suc n div 2) - 1)"
      by simp
    ultimately have "2 ^ bitlen (Suc n div 2) \<le> 2 * (Suc n div 2)"
      by (metis mult_le_mono2 power_Suc)
    also have "\<dots> \<le> Suc n" by arith
    finally show ?thesis by simp
  qed
qed

lemma exponent_bounds:
  assumes "0 < x"
  shows "2 powi exponent x \<le> x" and "x < 2 powi (exponent x + 1)"
proof -
  show "2 powi exponent x \<le> x"
  proof (cases "1 \<le> x")
    case True
    define n where "n = nat \<lfloor>x\<rfloor>"
    from True have n: "0 < n" "real n \<le> x" by (simp_all add: n_def)
    from bitlen_pos [OF n(1)] have "exponent x = int (bitlen n - 1)"
      using True by (simp add: exponent_def n_def)
    then have "(2::real) powi exponent x = 2 ^ (bitlen n - 1)" by (simp add: power_int_of_nat)
    also have "\<dots> \<le> real n" using bitlen_lower [OF n(1)] by simp
    finally show ?thesis using n(2) by (rule order_trans)
  next
    case False
    define m where "m = nat \<lceil>1 / x\<rceil>"
    define k where "k = bitlen (m - 1)"
    from False assms have x: "1 < 1 / x" by simp
    then have "2 \<le> \<lceil>1 / x\<rceil>" by linarith
    then have m2: "2 \<le> m" "real m = of_int \<lceil>1 / x\<rceil>"
      unfolding m_def by (linarith, simp)
    have "1 / x \<le> real_of_int \<lceil>1 / x\<rceil>" by linarith
    with m2 have m: "2 \<le> m" "1 / x \<le> real m" by simp_all
    have "m - 1 < 2 ^ k" unfolding k_def by (rule bitlen_upper)
    then have "m \<le> 2 ^ k" by simp
    then have "real m \<le> 2 ^ k" by simp
    with m(2) have "1 / x \<le> 2 ^ k" by (rule order_trans)
    with assms have "1 / 2 ^ k \<le> x"
      by (simp add: field_simps)
    moreover have "exponent x = - int k"
      using False by (simp add: exponent_def m_def k_def)
    ultimately show ?thesis by (simp add: power_int_minus_divide)
  qed
  show "x < 2 powi (exponent x + 1)"
  proof (cases "1 \<le> x")
    case True
    define n where "n = nat \<lfloor>x\<rfloor>"
    from True have n: "0 < n" "x < real n + 1" by (simp_all add: n_def)
    from bitlen_pos [OF n(1)] have "exponent x + 1 = int (bitlen n)"
      using True by (simp add: exponent_def n_def)
    then have "(2::real) powi (exponent x + 1) = 2 ^ bitlen n" by (simp add: power_int_of_nat)
    moreover have "n + 1 \<le> 2 ^ bitlen n" using bitlen_upper [of n] by simp
    then have "real (n + 1) \<le> real (2 ^ bitlen n)" by (simp only: of_nat_le_iff)
    then have "real n + 1 \<le> 2 ^ bitlen n" by simp
    ultimately show ?thesis using n(2) by linarith
  next
    case False
    define m where "m = nat \<lceil>1 / x\<rceil>"
    define k where "k = bitlen (m - 1)"
    from False assms have x: "1 < 1 / x" by simp
    then have "2 \<le> \<lceil>1 / x\<rceil>" by linarith
    then have m2: "2 \<le> m" "real m = of_int \<lceil>1 / x\<rceil>"
      unfolding m_def by (linarith, simp)
    have "real_of_int \<lceil>1 / x\<rceil> - 1 < 1 / x" by linarith
    with m2 have m: "2 \<le> m" "real m - 1 < 1 / x" by simp_all
    then have m1: "0 < m - 1" by simp
    from bitlen_pos [OF m1] have kp: "0 < k" by (simp add: k_def)
    have "2 ^ (k - 1) \<le> m - 1" unfolding k_def by (rule bitlen_lower [OF m1])
    then have "2 ^ (k - 1) \<le> real (m - 1)" by simp
    also have "\<dots> = real m - 1" using m(1) by simp
    finally have "2 ^ (k - 1) < 1 / x" using m(2) by linarith
    with assms have "x < 1 / 2 ^ (k - 1)"
      by (simp add: field_simps)
    moreover have "exponent x + 1 = - int (k - 1)"
      using False kp by (simp add: exponent_def m_def k_def)
    ultimately show ?thesis by (simp add: power_int_minus_divide)
  qed
qed


lemma roundHalfEven_ge: "of_int N \<le> q \<Longrightarrow> N \<le> roundHalfEven q"
proof -
  assume "of_int N \<le> q"
  then have "N \<le> \<lfloor>q\<rfloor>" by (simp add: le_floor_iff)
  moreover have "\<lfloor>q\<rfloor> \<le> roundHalfEven q" by (simp add: roundHalfEven_def Let_def)
  ultimately show ?thesis by simp
qed

lemma roundHalfEven_of_int: "roundHalfEven (of_int N) = N"
  by (simp add: roundHalfEven_def Let_def)

lemma roundHalfEven_le: "q \<le> of_int N \<Longrightarrow> roundHalfEven q \<le> N"
proof (cases "q = of_int N")
  case True
  then show ?thesis by (simp add: roundHalfEven_of_int)
next
  case False
  assume "q \<le> of_int N"
  with False have "q < of_int N" by simp
  then have "\<lfloor>q\<rfloor> < N" by (simp add: floor_less_iff)
  moreover have "roundHalfEven q \<le> \<lfloor>q\<rfloor> + 1" by (simp add: roundHalfEven_def Let_def)
  ultimately show ?thesis by simp
qed

lemma pow2_le_cancel: "(2::real) powi a \<le> 2 powi b \<Longrightarrow> a \<le> b"
proof (rule ccontr)
  assume le: "(2::real) powi a \<le> 2 powi b" and "\<not> a \<le> b"
  then have "b < a" by simp
  then have "(2::real) powi b < 2 powi a" by (intro power_int_strict_increasing) simp_all
  with le show False by simp
qed

lemma pow2_less_cancel: "(2::real) powi a < 2 powi b \<Longrightarrow> a < b"
proof (rule ccontr)
  assume less: "(2::real) powi a < 2 powi b" and "\<not> a < b"
  then have "b \<le> a" by simp
  then have "(2::real) powi b \<le> 2 powi a" by (intro power_int_increasing) simp_all
  with less show False by simp
qed

lemma round64_pos_eq:
  assumes "0 < x"
  shows "round64 x =
     (let e = max (exponent x) (- 1022);
          y = of_int (roundHalfEven (x / 2 powi (e - 52))) * 2 powi (e - 52)
      in if 2 ^ 1024 \<le> y then PosInf else Fin y)"
  using assms by (simp add: round64_def Let_def)

lemma round64_ge_pow2:
  assumes "2 powi k \<le> x" and "- 1022 \<le> k"
  shows "round64 x = PosInf \<or> (\<exists>y. round64 x = Fin y \<and> 2 powi k \<le> y)"
proof -
  have "(0::real) < 2 powi k" by (simp add: zero_less_power_int)
  with assms(1) have x: "0 < x" by linarith
  define e where "e = exponent x"
  from exponent_bounds [OF x] have b: "2 powi e \<le> x" "x < 2 powi (e + 1)"
    by (simp_all add: e_def)
  from assms(1) b(2) have "(2::real) powi k < 2 powi (e + 1)" by simp
  then have "k < e + 1" by (rule pow2_less_cancel)
  then have ke: "k \<le> e" by simp
  with assms(2) have m: "max e (- 1022) = e" by simp
  define ulp :: real where "ulp = 2 powi (e - 52)"
  have ulp: "0 < ulp" by (simp add: ulp_def zero_less_power_int)
  have pe: "(2::real) powi e = 2 ^ 52 * ulp"
    by (simp add: ulp_def power_int_diff)
  define n where "n = roundHalfEven (x / ulp)"
  from b(1) pe ulp have "2 ^ 52 \<le> x / ulp" by (simp add: pos_le_divide_eq)
  then have "real_of_int (2 ^ 52) \<le> x / ulp" by simp
  then have "2 ^ 52 \<le> n" unfolding n_def by (rule roundHalfEven_ge)
  then have "real_of_int (2 ^ 52) \<le> real_of_int n" by (simp only: of_int_le_iff)
  then have "2 ^ 52 * ulp \<le> real_of_int n * ulp" using ulp by simp
  with pe have "2 powi e \<le> real_of_int n * ulp" by simp
  moreover from ke have "(2::real) powi k \<le> 2 powi e" by (intro power_int_increasing) simp_all
  ultimately have y: "2 powi k \<le> real_of_int n * ulp" by simp
  have "round64 x = (if 2 ^ 1024 \<le> real_of_int n * ulp then PosInf else Fin (real_of_int n * ulp))"
    using round64_pos_eq [OF x] by (simp add: Let_def e_def [symmetric] m ulp_def n_def)
  with y show ?thesis by simp
qed

lemma round64_le_pow2:
  assumes "0 < x" and "x \<le> 2 powi k" and "- 1022 \<le> k" and "k \<le> 1023"
  shows "\<exists>y. round64 x = Fin y \<and> 0 \<le> y \<and> y \<le> 2 powi k"
proof -
  define e0 where "e0 = exponent x"
  define e where "e = max e0 (- 1022)"
  from exponent_bounds [OF assms(1)] have "2 powi e0 \<le> x" by (simp add: e0_def)
  with assms(2) have "(2::real) powi e0 \<le> 2 powi k" by simp
  then have "e0 \<le> k" by (rule pow2_le_cancel)
  with assms(3) have ek: "e \<le> k" by (simp add: e_def)
  define ulp :: real where "ulp = 2 powi (e - 52)"
  have ulp: "0 < ulp" by (simp add: ulp_def zero_less_power_int)
  define N :: int where "N = 2 ^ nat (k - e + 52)"
  have "real_of_int N = 2 powi (int (nat (k - e + 52)))"
    by (simp only: N_def power_int_of_nat of_int_power of_int_numeral)
  also from ek have "\<dots> = 2 powi (k - e + 52)" by simp
  finally have N: "real_of_int N = 2 powi (k - e + 52)" .
  have "(2::real) powi k = 2 powi ((k - e + 52) + (e - 52))" by simp
  also have "\<dots> = 2 powi (k - e + 52) * 2 powi (e - 52)"
    by (rule power_int_add) simp
  finally have pk: "2 powi k = real_of_int N * ulp" by (simp add: N ulp_def)
  define n where "n = roundHalfEven (x / ulp)"
  from assms(2) pk ulp have "x / ulp \<le> real_of_int N" by (simp add: pos_divide_le_eq)
  then have "n \<le> N" unfolding n_def by (rule roundHalfEven_le)
  then have "real_of_int n \<le> real_of_int N" by (simp only: of_int_le_iff)
  then have "real_of_int n * ulp \<le> real_of_int N * ulp" using ulp by simp
  with pk have y1: "real_of_int n * ulp \<le> 2 powi k" by simp
  from assms(1) ulp have "real_of_int 0 \<le> x / ulp" by simp
  then have "0 \<le> n" unfolding n_def by (rule roundHalfEven_ge)
  with ulp have y0: "0 \<le> real_of_int n * ulp" by simp
  from assms(4) have "(2::real) powi k \<le> 2 powi 1023" by (intro power_int_increasing) simp_all
  also have "\<dots> < 2 powi 1024" by (intro power_int_strict_increasing) simp_all
  finally have "(2::real) powi k < 2 ^ 1024" by (simp only: power_int_numeral)
  with y1 have "\<not> 2 ^ 1024 \<le> real_of_int n * ulp" by simp
  then have "round64 x = Fin (real_of_int n * ulp)"
    using round64_pos_eq [OF assms(1)]
    by (simp add: Let_def e0_def [symmetric] e_def [symmetric] ulp_def n_def)
  with y0 y1 show ?thesis by simp
qed

lemma round64_zero: "round64 0 = Fin 0"
  by (simp add: round64_def)


lemma bitlen_numeral: "bitlen (numeral k) = Suc (bitlen (numeral k div 2))"
  by (subst bitlen_if) simp

lemmas round64_eval = round64_def exponent_def roundHalfEven_def float64_def bitlen_numeral Let_def

lemma prob_age_zero:
  assumes "0 \<le> r"
  shows "\<not> f64_lt r (f64_mul (f64_quo (float64 0) (float64 d)) \<beta>)"
proof -
  have z: "float64 0 = Fin 0" by (simp add: float64_def round64_zero)
  show ?thesis
  proof (cases "float64 d")
    case (Fin y)
    with z assms show ?thesis by (simp add: round64_zero)
  qed (use z assms in \<open>simp_all add: round64_zero\<close>)
qed

lemma float64_ge_one:
  assumes "0 < i"
  shows "float64 i = PosInf \<or> (\<exists>y. float64 i = Fin y \<and> 1 \<le> y)"
proof -
  from assms have "2 powi 0 \<le> real_of_int i" by simp
  from round64_ge_pow2 [OF this] show ?thesis by (simp add: float64_def)
qed

lemma float64_int64:
  assumes "0 < i" and "i \<le> 9223372036854775807"
  shows "\<exists>y. float64 i = Fin y \<and> 1 \<le> y \<and> y \<le> 2 ^ 63"
proof -
  from assms(2) have "i \<le> 2 ^ 63" by simp
  then have "real_of_int i \<le> real_of_int (2 ^ 63)" by (simp only: of_int_le_iff)
  then have "real_of_int i \<le> 2 powi 63" by simp
  with assms(1) have "\<exists>y. round64 (real_of_int i) = Fin y \<and> 0 \<le> y \<and> y \<le> 2 powi 63"
    by (intro round64_le_pow2) simp_all
  then obtain y where y: "float64 i = Fin y" "y \<le> 2 ^ 63" by (auto simp: float64_def)
  with float64_ge_one [OF assms(1)] have "1 \<le> y" by simp
  with y show ?thesis by simp
qed

lemma quotient_lower:
  assumes "0 < e" and "0 \<le> d" and "d \<le> 9223372036854775807"
  shows "f64_quo (float64 e) (float64 d) = PosInf
         \<or> (\<exists>z. f64_quo (float64 e) (float64 d) = Fin z \<and> 1 / 2 ^ 63 \<le> z)"
proof (cases "d = 0")
  case True
  then have "float64 d = Fin 0" by (simp add: float64_def round64_zero)
  with float64_ge_one [OF assms(1)] show ?thesis by auto
next
  case False
  with assms(2) have "0 < d" by simp
  from float64_int64 [OF this assms(3)] obtain y where
    y: "float64 d = Fin y" "1 \<le> y" "y \<le> 2 ^ 63" by blast
  from y(2) have yp: "0 < y" "y \<noteq> 0" by simp_all
  from float64_ge_one [OF assms(1)] show ?thesis
  proof
    assume "float64 e = PosInf"
    with y(1) yp show ?thesis by simp
  next
    assume "\<exists>x. float64 e = Fin x \<and> 1 \<le> x"
    then obtain x where x: "float64 e = Fin x" "1 \<le> x" by blast
    have "1 / 2 ^ 63 \<le> 1 / y" using y(3) yp by (simp add: frac_le)
    also have "\<dots> \<le> x / y" using x(2) yp by (simp add: divide_right_mono)
    finally have "2 powi (- 63) \<le> x / y" by (simp add: power_int_minus_divide)
    from round64_ge_pow2 [OF this] have
      "round64 (x / y) = PosInf \<or> (\<exists>z. round64 (x / y) = Fin z \<and> 2 powi (- 63) \<le> z)"
      by simp
    with x(1) y(1) yp show ?thesis by (auto simp: power_int_minus_divide)
  qed
qed

lemma quotient_sign_rounding:
  assumes "0 < e" and "0 \<le> d" and "d \<le> 9223372036854775807"
  shows "f64_le (f64_quo (float64 e) (float64 d)) 0
         = f64_le (f64_div (real_of_int e) (real_of_int d)) 0"
proof -
  have "(0::real) < 1 / 2 ^ 63" by simp
  with quotient_lower [OF assms] have "\<not> f64_le (f64_quo (float64 e) (float64 d)) 0"
    by auto
  moreover from assms have "\<not> f64_le (f64_div (real_of_int e) (real_of_int d)) 0"
    by (simp add: f64_div_def divide_le_0_iff)
  ultimately show ?thesis by simp
qed

lemma quotient_instances_rounding:
  "f64_le (f64_quo (float64 1000000000) (float64 10000000000)) (2 / 10)
     = f64_le (f64_div (real_of_int 1000000000) (real_of_int 10000000000)) (2 / 10)"
  "f64_le (f64_quo (float64 9000000000) (float64 (- 1000000000))) 0
     = f64_le (f64_div (real_of_int 9000000000) (real_of_int (- 1000000000))) 0"
  by (simp_all add: round64_eval f64_div_def)

lemma prob_saturates:
  assumes "0 < e" and "0 \<le> d" and "d \<le> 9223372036854775807" and "r < 1"
    and "2 ^ 63 \<le> \<beta>"
  shows "f64_lt r (f64_mul (f64_quo (float64 e) (float64 d)) \<beta>)"
proof -
  have "(0::real) < 2 ^ 63" by simp
  with assms(5) have bp: "0 < \<beta>" by linarith
  from quotient_lower [OF assms(1-3)] show ?thesis
  proof
    assume "f64_quo (float64 e) (float64 d) = PosInf"
    with bp show ?thesis by simp
  next
    assume "\<exists>z. f64_quo (float64 e) (float64 d) = Fin z \<and> 1 / 2 ^ 63 \<le> z"
    then obtain z where z: "f64_quo (float64 e) (float64 d) = Fin z" "1 / 2 ^ 63 \<le> z"
      by blast
    have "(0::real) \<le> 1 / 2 ^ 63" by simp
    with z(2) have zp: "0 \<le> z" by linarith
    have "1 = 1 / 2 ^ 63 * (2 ^ 63 :: real)" by simp
    also have "\<dots> \<le> z * \<beta>" using z(2) assms(5) zp by (intro mult_mono) simp_all
    finally have "2 powi 0 \<le> z * \<beta>" by simp
    from round64_ge_pow2 [OF this] have
      "round64 (z * \<beta>) = PosInf \<or> (\<exists>w. round64 (z * \<beta>) = Fin w \<and> 1 \<le> w)"
      by simp
    with assms(4) have "f64_lt r (round64 (z * \<beta>))" by auto
    with z(1) show ?thesis by simp
  qed
qed

subsection \<open>Probabilistic refresh on a hit\<close>

lemma h_fresh_facts:
  "lastRefreshByKey h_fresh (fullKey h_fresh ''k'' @ ''@created'') = Some (now h_fresh)"
  "0 \<le> rand h_fresh"
  by (simp_all add: h_fresh_def enableProbabilisticRefresh_def instance_defs fullKey_def)

lemma h_aged_facts:
  "lastRefreshByKey h_aged (fullKey h_aged ''k'' @ ''@created'') = Some 40"
  "now h_aged = 100" "rand h_aged = 1 / 2" "trace h_aged = []"
  "defaultProbabilisticBeta (config h_aged) = 1"
  by (simp_all add: h_aged_def enableProbabilisticRefresh_def instance_defs fullKey_def)

text \<open>
  C9, as the code has it.  On a hit under ProbabilisticRefresh, with \<open>\<beta>\<close> the call's
  beta when positive and the handler's default otherwise: no refresh is started when the
  \<open>@created\<close> stamp of the key is absent; when it is present a refresh is started
  exactly when the draw is below the probability the code computes, the \<open>float64\<close>
  product by \<open>\<beta>\<close> of the \<open>float64\<close> quotient of the elapsed time by the TTL, each
  rounded to nearest.  For \<open>\<beta>\<close> very large, from \<open>2 ^ 63\<close> on, a refresh is started
  on every hit whose elapsed time is positive and whose TTL is not negative (and is a
  64-bit duration), whatever the draw below 1.  On a hit at the clock reading of the stamp
  no refresh is started, whatever \<open>\<beta>\<close> is.
\<close>

theorem probabilistic_hit_refresh:
  "(lastRefreshByKey h (fullKey h key @ ''@created'') = None \<longrightarrow>
      handleHitRefresh h key d gen MissPolicyProbabilisticRefresh co = h)
   \<and> (lastRefreshByKey h (fullKey h key @ ''@created'') = Some c \<longrightarrow>
      handleHitRefresh h key d gen MissPolicyProbabilisticRefresh co =
        (if f64_lt (rand h)
              (f64_mul (f64_quo (float64 (now h - c)) (float64 d))
                 (if probabilisticRefreshBeta co \<le> 0 then defaultProbabilisticBeta (config h)
                  else probabilisticRefreshBeta co))
         then emit (EvGo (BackgroundRefresh key d gen)) h else h))
   \<and> (lastRefreshByKey h (fullKey h key @ ''@created'') = Some c
       \<and> 0 < now h - c \<and> 0 \<le> d \<and> d \<le> 9223372036854775807 \<and> rand h < 1
       \<and> 2 ^ 63 \<le> (if probabilisticRefreshBeta co \<le> 0 then defaultProbabilisticBeta (config h)
                     else probabilisticRefreshBeta co) \<longrightarrow>
      handleHitRefresh h key d gen MissPolicyProbabilisticRefresh co =
        emit (EvGo (BackgroundRefresh key d gen)) h)
   \<and> (lastRefreshByKey h (fullKey h key @ ''@created'') = Some (now h) \<and> 0 \<le> rand h \<longrightarrow>
      handleHitRefresh h key d gen MissPolicyProbabilisticRefresh co = h)"
proof (intro conjI impI)
  assume "lastRefreshByKey h (fullKey h key @ ''@created'') = None"
  then show "handleHitRefresh h key d gen MissPolicyProbabilisticRefresh co = h"
    by (simp add: handleHitRefresh_def shouldProbabilisticRefresh_def Let_def)
next
  assume "lastRefreshByKey h (fullKey h key @ ''@created'') = Some c"
  then show "handleHitRefresh h key d gen MissPolicyProbabilisticRefresh co =
        (if f64_lt (rand h)
              (f64_mul (f64_quo (float64 (now h - c)) (float64 d))
                 (if probabilisticRefreshBeta co \<le> 0 then defaultProbabilisticBeta (config h)
                  else probabilisticRefreshBeta co))
         then emit (EvGo (BackgroundRefresh key d gen)) h else h)"
    by (simp add: handleHitRefresh_def shouldProbabilisticRefresh_def Let_def)
next
  let ?b = "if probabilisticRefreshBeta co \<le> 0 then defaultProbabilisticBeta (config h)
            else probabilisticRefreshBeta co"
  assume a: "lastRefreshByKey h (fullKey h key @ ''@created'') = Some c
       \<and> 0 < now h - c \<and> 0 \<le> d \<and> d \<le> 9223372036854775807 \<and> rand h < 1
       \<and> 2 ^ 63 \<le> ?b"
  then have "f64_lt (rand h) (f64_mul (f64_quo (float64 (now h - c)) (float64 d)) ?b)"
    by (intro prob_saturates) simp_all
  with a show "handleHitRefresh h key d gen MissPolicyProbabilisticRefresh co =
        emit (EvGo (BackgroundRefresh key d gen)) h"
    by (simp add: handleHitRefresh_def shouldProbabilisticRefresh_def Let_def)
next
  let ?b = "if probabilisticRefreshBeta co \<le> 0 then defaultProbabilisticBeta (config h)
            else probabilisticRefreshBeta co"
  assume a: "lastRefreshByKey h (fullKey h key @ ''@created'') = Some (now h) \<and> 0 \<le> rand h"
  then have "\<not> f64_lt (rand h) (f64_mul (f64_quo (float64 0) (float64 d)) ?b)"
    by (intro prob_age_zero) simp
  with a show "handleHitRefresh h key d gen MissPolicyProbabilisticRefresh co = h"
    by (simp add: handleHitRefresh_def shouldProbabilisticRefresh_def Let_def)
qed

text \<open>No stamp: nothing is started.  Stamp sixty units old, TTL sixty, beta one, draw
  one half: the probability computed is 1 and a refresh is started.  The same hit with
  beta \<open>2 ^ 63\<close>: a refresh is started.  Stamp of this instant: nothing is started.\<close>

theorem probabilistic_hit_refresh_witness:
  "lastRefreshByKey h_new (fullKey h_new ''k'' @ ''@created'') = None
   \<and> handleHitRefresh h_new ''k'' 60 (Inr True) MissPolicyProbabilisticRefresh zeroCallOpts = h_new
   \<and> lastRefreshByKey h_aged (fullKey h_aged ''k'' @ ''@created'') = Some 40
   \<and> f64_mul (f64_quo (float64 (now h_aged - 40)) (float64 60)) 1 = Fin 1
   \<and> spawned (trace (handleHitRefresh h_aged ''k'' 60 (Inr True)
                        MissPolicyProbabilisticRefresh zeroCallOpts))
       = [BackgroundRefresh ''k'' 60 (Inr True)]
   \<and> probabilisticRefreshBeta (WithProbabilisticBeta (2 ^ 63) zeroCallOpts) = 2 ^ 63
   \<and> spawned (trace (handleHitRefresh h_aged ''k'' 60 (Inr True)
                        MissPolicyProbabilisticRefresh (WithProbabilisticBeta (2 ^ 63) zeroCallOpts)))
       = [BackgroundRefresh ''k'' 60 (Inr True)]
   \<and> lastRefreshByKey h_fresh (fullKey h_fresh ''k'' @ ''@created'') = Some (now h_fresh)
   \<and> handleHitRefresh h_fresh ''k'' 60 (Inr True) MissPolicyProbabilisticRefresh zeroCallOpts
       = h_fresh"
proof -
  have n: "lastRefreshByKey h_new (fullKey h_new ''k'' @ ''@created'') = None"
    by (simp add: h_new_def instance_defs)
  from probabilistic_hit_refresh [of h_new "''k''" 60 "Inr True" zeroCallOpts] n
  have a: "handleHitRefresh h_new ''k'' 60 (Inr True) MissPolicyProbabilisticRefresh zeroCallOpts
             = h_new"
    by blast
  have p: "f64_mul (f64_quo (float64 (now h_aged - 40)) (float64 60)) 1 = Fin 1"
    by (simp add: h_aged_facts round64_eval)
  have b0: "(if probabilisticRefreshBeta zeroCallOpts \<le> 0
             then defaultProbabilisticBeta (config h_aged)
             else probabilisticRefreshBeta zeroCallOpts) = 1"
    by (simp add: h_aged_facts zeroCallOpts_def)
  from probabilistic_hit_refresh [of h_aged "''k''" 60 "Inr True" zeroCallOpts 40] h_aged_facts(1)
  have "handleHitRefresh h_aged ''k'' 60 (Inr True) MissPolicyProbabilisticRefresh zeroCallOpts =
        (if f64_lt (rand h_aged)
              (f64_mul (f64_quo (float64 (now h_aged - 40)) (float64 60))
                 (if probabilisticRefreshBeta zeroCallOpts \<le> 0
                  then defaultProbabilisticBeta (config h_aged)
                  else probabilisticRefreshBeta zeroCallOpts))
         then emit (EvGo (BackgroundRefresh ''k'' 60 (Inr True))) h_aged else h_aged)"
    by blast
  then have "handleHitRefresh h_aged ''k'' 60 (Inr True) MissPolicyProbabilisticRefresh zeroCallOpts
          = emit (EvGo (BackgroundRefresh ''k'' 60 (Inr True))) h_aged"
    by (simp only: b0 p) (simp add: h_aged_facts)
  then have b: "spawned (trace (handleHitRefresh h_aged ''k'' 60 (Inr True)
                        MissPolicyProbabilisticRefresh zeroCallOpts))
       = [BackgroundRefresh ''k'' 60 (Inr True)]"
    by (simp add: h_aged_facts)
  let ?co = "WithProbabilisticBeta (2 ^ 63) zeroCallOpts"
  have w: "probabilisticRefreshBeta ?co = 2 ^ 63"
    by (simp add: WithProbabilisticBeta_def zeroCallOpts_def)
  have pre: "lastRefreshByKey h_aged (fullKey h_aged ''k'' @ ''@created'') = Some 40
       \<and> 0 < now h_aged - 40 \<and> 0 \<le> (60::int) \<and> (60::int) \<le> 9223372036854775807
       \<and> rand h_aged < 1
       \<and> 2 ^ 63 \<le> (if probabilisticRefreshBeta ?co \<le> 0
                     then defaultProbabilisticBeta (config h_aged)
                     else probabilisticRefreshBeta ?co)"
    by (simp add: h_aged_facts WithProbabilisticBeta_def zeroCallOpts_def)
  from probabilistic_hit_refresh [of h_aged "''k''" 60 "Inr True" ?co 40] pre
  have "handleHitRefresh h_aged ''k'' 60 (Inr True) MissPolicyProbabilisticRefresh ?co
          = emit (EvGo (BackgroundRefresh ''k'' 60 (Inr True))) h_aged"
    by blast
  then have s: "spawned (trace (handleHitRefresh h_aged ''k'' 60 (Inr True)
                        MissPolicyProbabilisticRefresh ?co))
       = [BackgroundRefresh ''k'' 60 (Inr True)]"
    by (simp add: h_aged_facts)
  from probabilistic_hit_refresh [of h_fresh "''k''" 60 "Inr True" zeroCallOpts 0]
    h_fresh_facts
  have d: "handleHitRefresh h_fresh ''k'' 60 (Inr True) MissPolicyProbabilisticRefresh zeroCallOpts
             = h_fresh"
    by blast
  from n a p b w s d show ?thesis by (simp add: h_aged_facts h_fresh_facts)
qed

text \<open>
  C9 as stated fails in three ways.  On a hit at the clock reading of the stamp the
  elapsed time is 0, so the probability is 0 for every beta and no refresh is started
  however large beta is.  The probability is the rounded one: one second after the stamp,
  with a TTL of forty-nine seconds and beta forty-nine, the quotient and the product of
  the numbers give 1, the code computes \<open>1 - 1 / 2 ^ 53\<close>, and the draw
  \<open>1 - 1 / 2 ^ 53\<close>, below the former and not below the latter, starts no refresh.
  And a negative TTL makes the probability negative: on a handler with a default TTL of
  minus sixty, a hit sixty after the stamp starts no refresh with beta \<open>10 ^ 12\<close>.
\<close>

theorem probabilistic_claim_fails:
  "lastRefreshByKey h_fresh ''k@created'' = Some (now h_fresh)
   \<and> rand h_fresh = 0
   \<and> probabilisticRefreshBeta (WithProbabilisticBeta 1000000000000 zeroCallOpts) = 1000000000000
   \<and> handleHitRefresh h_fresh ''k'' 60 (Inr True) MissPolicyProbabilisticRefresh
        (WithProbabilisticBeta 1000000000000 zeroCallOpts) = h_fresh
   \<and> lastRefreshByKey h_edge ''k@created'' = Some 0
   \<and> now h_edge = 1000000000
   \<and> rand h_edge = 1 - 1 / 2 ^ 53
   \<and> real_of_int (now h_edge - 0) / real_of_int (49 * second) * 49 = 1
   \<and> f64_mul (f64_quo (float64 (now h_edge - 0)) (float64 (49 * second))) 49
       = Fin (1 - 1 / 2 ^ 53)
   \<and> handleHitRefresh h_edge ''k'' (49 * second) (Inr True) MissPolicyProbabilisticRefresh
        (WithProbabilisticBeta 49 zeroCallOpts) = h_edge
   \<and> lastRefreshByKey h_negprob ''k@created'' = Some 40
   \<and> now h_negprob = 100
   \<and> rand h_negprob = 1 / 2
   \<and> defaultTTL (config h_negprob) = - 60
   \<and> map_option (\<lambda>(h', res, err). (spawned (trace h'), res, err))
        (GetOrRefresh h_negprob ''k'' (Inr False) [WithProbabilisticBeta 1000000000000])
     = Some ([], \<lparr> Value = True, FromCache = True, CachedAt = Some 100 \<rparr>, None)"
  by (simp add: h_fresh_def h_edge_def h_negprob_def enableProbabilisticRefresh_def
        GetOrRefresh_def handleHitRefresh_def shouldProbabilisticRefresh_def
        WithProbabilisticBeta_def round64_eval round64_zero eval_defs)

end
